theory Spec2Isabelle
  imports Main "HOL-Library.Word"
begin

unbundle bit_operations_syntax

section \<open>The RPC manager of slurmdbd (src/slurmdbd/rpc\_mgr.c)\<close>

text \<open>
  The file under study keeps four pieces of shared state: the manager's thread
  identity, the table of worker thread identities, the live-worker counter and the
  process-wide shutdown time.  They are modelled as one record that every operation
  takes and returns.  Thread identities (\<open>pthread_t\<close>) are natural numbers, with 0 for
  "no thread", as the C code tests them.  The counter is a C \<open>int\<close>; it is modelled as
  an unbounded \<open>int\<close>, and the bound proved below shows that no increment ever happens
  at a value of 100 or more, so the machine width never matters.
\<close>

subsection \<open>Constants and shared state\<close>

type_synonym pthread_t = nat
type_synonym byte = "8 word"

definition MAX_THREAD_COUNT :: nat where
  "MAX_THREAD_COUNT = 100"

definition MAX_MSG_SIZE :: nat where
  "MAX_MSG_SIZE = 16 * 1024 * 1024"

text \<open>Modelled from the spec: the status codes.  Their numeric values are declared in
  headers that are not part of the sources at hand; the code only compares a returned
  status against these named constants, and the spec (section 6) lists them as
  distinct codes.\<close>

datatype rc =
    SLURM_SUCCESS
  | SLURM_ERROR
  | ACCOUNTING_FIRST_REG
  | ESLURM_ACCESS_DENIED
  | SLURM_PROTOCOL_VERSION_ERROR
  | OTHER_RC int

text \<open>A response buffer is either what the request processor produced (opaque
  bytes) or the return-code message built by \<open>slurm_persist_make_rc_msg\<close>.\<close>

datatype buf =
    Proc_buf "byte list"
  | Rc_msg rc string nat

text \<open>Everything the code does that is visible outside its own variables is recorded
  as an event: log lines by level, signals, the condition-variable broadcast, and the
  calls into the collaborators.\<close>

datatype event =
    Error string
  | Verbose string
  | Debug string
  | Debug2 string
  | Debug3 string
  | Pthread_kill pthread_t
  | Cond_broadcast
  | Usleep nat
  | Close_fd int
  | Proc_req "byte list" bool
  | Send_msg "buf option"
  | Fini_ctld nat
  | Registry_lock
  | List_delete_item nat
  | Registry_unlock
  | Commit nat
  | Close_connection
  | Members_destroy
  | Xfree_tres_str
  | Xfree_conn

datatype error = Fatal string

record rpc_state =
  master_thread_id :: pthread_t
  slave_thread_id :: "nat \<Rightarrow> pthread_t"
  thread_count :: int
  shutdown_time :: int
  last_print_time :: int
  cond_waiters :: "pthread_t set"
  logged :: "event list"

text \<open>The state at program start: static storage is zero, nobody waits.\<close>

definition init_state :: rpc_state where
  "init_state =
     \<lparr>master_thread_id = 0, slave_thread_id = (\<lambda>_. 0), thread_count = 0,
      shutdown_time = 0, last_print_time = 0, cond_waiters = {}, logged = []\<rparr>"

definition add_log :: "event \<Rightarrow> rpc_state \<Rightarrow> rpc_state" where
  "add_log e st = st\<lparr>logged := logged st @ [e]\<rparr>"

subsection \<open>Scanning the slot table\<close>

text \<open>Both \<open>_wait_for_server_thread\<close> and \<open>_free_server_thread\<close> walk the table
  with \<open>for (i=0; i<MAX_THREAD_COUNT; i++)\<close>, skip entries with \<open>continue\<close> and stop
  at the first hit with \<open>break\<close>.  \<open>scan_from P i\<close> is that loop started at index
  \<open>i\<close>: the first index at which \<open>P\<close> holds, or \<open>None\<close> when the loop runs off the
  end of the table.\<close>

function scan_from :: "(nat \<Rightarrow> bool) \<Rightarrow> nat \<Rightarrow> nat option" where
  "scan_from P i =
     (if i < MAX_THREAD_COUNT then (if P i then Some i else scan_from P (Suc i))
      else None)"
  by pat_completeness auto
termination
  by (relation "measure (\<lambda>(P, i). MAX_THREAD_COUNT - i)") auto

declare scan_from.simps [simp del]

subsection \<open>\<open>_wait_for_server_thread\<close>: admission\<close>

text \<open>One pass through the body of the \<open>while (1)\<close> loop, executed with
  \<open>thread_count_lock\<close> held.  \<open>print_it\<close> is the local flag, \<open>now\<close> the value that
  \<open>time(NULL)\<close> returns.  The pass either leaves the loop (\<open>Leave\<close>, with the value
  the function returns, or with the fatal error that ends the process) or reaches
  \<open>slurm_cond_wait\<close> (\<open>Cond_wait\<close>, with the new value of \<open>print_it\<close>).  The caller
  is the manager thread, so it is the manager's identity that joins the waiters.\<close>

datatype pass = Leave "error + int" | Cond_wait bool

definition wait_pass :: "bool \<Rightarrow> int \<Rightarrow> rpc_state \<Rightarrow> pass \<times> rpc_state" where
  "wait_pass print_it now st =
     (if shutdown_time st \<noteq> 0 then (Leave (Inr (- 1)), st)
      else if thread_count st < int MAX_THREAD_COUNT then
        (let st1 = st\<lparr>thread_count := thread_count st + 1\<rparr> in
         case scan_from (\<lambda>i. slave_thread_id st1 i = 0) 0 of
           Some i \<Rightarrow> (Leave (Inr (int i)), st1)
         | None \<Rightarrow> (Leave (Inl (Fatal ''No free slave_thread_id'')), st1))
      else
        (let st1 =
           (if print_it \<and> now - last_print_time st > 2
            then (add_log (Verbose ''thread_count over limit (%d), waiting'') st)
                   \<lparr>last_print_time := now\<rparr>
            else st)
         in (Cond_wait False,
             st1\<lparr>cond_waiters := insert (master_thread_id st1) (cond_waiters st1)\<rparr>)))"

subsection \<open>\<open>_free_server_thread\<close>: release\<close>

definition free_server_thread :: "pthread_t \<Rightarrow> rpc_state \<Rightarrow> rpc_state" where
  "free_server_thread my_tid st =
     (let st1 =
        (if thread_count st > 0 then st\<lparr>thread_count := thread_count st - 1\<rparr>
         else add_log (Error ''thread_count underflow'') st);
          st2 =
        (if my_tid \<noteq> 0 then
           (case scan_from (\<lambda>i. slave_thread_id st1 i = my_tid) 0 of
              Some i \<Rightarrow> st1\<lparr>slave_thread_id := (slave_thread_id st1)(i := 0)\<rparr>
            | None \<Rightarrow> add_log (Error ''Could not find slave_thread_id'') st1)
         else st1)
      in (add_log Cond_broadcast st2)\<lparr>cond_waiters := {}\<rparr>)"

text \<open>What other threads can do to the shared state while the manager sleeps in
  \<open>slurm_cond_wait\<close> (the mutex is released for the duration of the wait): a worker
  finishes and releases, or the signal thread sets the shutdown time.\<close>

datatype other_op = Worker_release pthread_t | Set_shutdown int

fun other_step :: "rpc_state \<Rightarrow> other_op \<Rightarrow> rpc_state" where
  "other_step st (Worker_release t) = free_server_thread t st"
| "other_step st (Set_shutdown t) = st\<lparr>shutdown_time := t\<rparr>"

text \<open>One return from \<open>slurm_cond_wait\<close>: what the others did meanwhile, and the
  clock value the next pass will read.  The woken thread is no longer a waiter.\<close>

record wakeup =
  others :: "other_op list"
  clock :: int

definition wake :: "wakeup \<Rightarrow> rpc_state \<Rightarrow> rpc_state" where
  "wake w st =
     (let st1 = foldl other_step st (others w)
      in st1\<lparr>cond_waiters := cond_waiters st1 - {master_thread_id st1}\<rparr>)"

text \<open>The whole function.  The list holds the wake-ups the environment will deliver;
  when the thread reaches \<open>slurm_cond_wait\<close> and no wake-up is left it waits for ever,
  which is the value \<open>None\<close>.  \<open>now\<close> is the clock at the first pass.\<close>

fun wait_loop :: "bool \<Rightarrow> int \<Rightarrow> rpc_state \<Rightarrow> wakeup list \<Rightarrow> ((error + int) \<times> rpc_state) option" where
  "wait_loop print_it now st ws =
     (case wait_pass print_it now st of
        (Leave r, st1) \<Rightarrow> Some (r, st1)
      | (Cond_wait p, st1) \<Rightarrow>
          (case ws of
             [] \<Rightarrow> None
           | w # ws' \<Rightarrow> wait_loop p (clock w) (wake w st1) ws'))"

declare wait_loop.simps [simp del]

definition wait_for_server_thread :: "int \<Rightarrow> rpc_state \<Rightarrow> wakeup list \<Rightarrow> ((error + int) \<times> rpc_state) option" where
  "wait_for_server_thread now st ws = wait_loop True now st ws"

text \<open>The admission state as a transition system.  \<open>Acquire\<close> is one pass of the
  admission loop under the mutex (a thread that has to wait runs another pass after
  its wake-up), \<open>Release\<close> is \<open>_free_server_thread\<close>, \<open>Create\<close> is what a successful
  \<open>pthread_create(&slave_thread_id[i], ...)\<close> stores, and \<open>Shutdown\<close> is the signal
  thread setting the shutdown time.\<close>

datatype op = Acquire bool int | Release pthread_t | Create nat pthread_t | Shutdown int

fun step :: "rpc_state \<Rightarrow> op \<Rightarrow> rpc_state" where
  "step st (Acquire p now) = snd (wait_pass p now st)"
| "step st (Release t) = free_server_thread t st"
| "step st (Create i t) = st\<lparr>slave_thread_id := (slave_thread_id st)(i := t)\<rparr>"
| "step st (Shutdown t) = st\<lparr>shutdown_time := t\<rparr>"

definition run :: "rpc_state \<Rightarrow> op list \<Rightarrow> rpc_state" where
  "run st ops = foldl step st ops"

subsection \<open>\<open>rpc_mgr_wake\<close>: the shutdown wake-up\<close>

text \<open>The loop over the table sends \<open>SIGUSR1\<close> to every entry that is not zero;
  \<open>kill_from st i\<close> is the list of signals sent from index \<open>i\<close> on.\<close>

function kill_from :: "rpc_state \<Rightarrow> nat \<Rightarrow> event list" where
  "kill_from st i =
     (if i < MAX_THREAD_COUNT then
        (if slave_thread_id st i \<noteq> 0
         then Pthread_kill (slave_thread_id st i) # kill_from st (Suc i)
         else kill_from st (Suc i))
      else [])"
  by pat_completeness auto
termination
  by (relation "measure (\<lambda>(st, i). MAX_THREAD_COUNT - i)") auto

declare kill_from.simps [simp del]

definition rpc_mgr_wake :: "rpc_state \<Rightarrow> event list" where
  "rpc_mgr_wake st =
     (if master_thread_id st \<noteq> 0 then [Pthread_kill (master_thread_id st)] else [])
     @ kill_from st 0"

subsection \<open>\<open>rpc_mgr\<close>: the accept loop\<close>

text \<open>Modelled from the spec: a connection.  The structure \<open>slurmdbd_conn_t\<close> is
  declared in a header that is not part of the sources at hand; the fields are those
  the code reads, with the types of the spec's data model (section 3).  \<open>conn_id\<close> is
  the address of the structure, which is how the registry identifies it.\<close>

record slurmdbd_conn =
  conn_id :: nat
  conn_fd :: int
  rem_host :: string
  rem_port :: nat
  cluster_name :: string
  db_conn :: nat
  tres_str :: string

datatype errno = EINTR | EAGAIN | EOTHER

datatype accept_result = Accept_error errno | Accepted int string

text \<open>The manager registers itself first (lines 93 to 95).\<close>

definition rpc_mgr_register :: "pthread_t \<Rightarrow> rpc_state \<Rightarrow> rpc_state" where
  "rpc_mgr_register self st = st\<lparr>master_thread_id := self\<rparr>"

text \<open>One call of \<open>pthread_create(&slave_thread_id[i], ...)\<close>.  On success the new
  thread's identity is stored in the slot.  On failure the call returns non-zero and
  what it leaves in the slot is not defined: it may leave the slot alone
  (\<open>Create_failed None\<close>) or store some value \<open>v\<close> in it (\<open>Create_failed (Some v)\<close>).\<close>

datatype create_result = Created pthread_t | Create_failed "pthread_t option"

definition store_slot :: "nat \<Rightarrow> pthread_t option \<Rightarrow> rpc_state \<Rightarrow> rpc_state" where
  "store_slot i stored st =
     (case stored of
        None \<Rightarrow> st
      | Some v \<Rightarrow> st\<lparr>slave_thread_id := (slave_thread_id st)(i := v)\<rparr>)"

text \<open>The \<open>while (pthread_create(...))\<close> loop.  \<open>create k\<close> is the outcome of the
  attempt made with \<open>retry_cnt = k\<close>.  The result says whether a worker was
  started.\<close>

function create_loop ::
  "(nat \<Rightarrow> create_result) \<Rightarrow> nat \<Rightarrow> int \<Rightarrow> nat \<Rightarrow> rpc_state \<Rightarrow> bool \<times> rpc_state" where
  "create_loop create i newsockfd retry_cnt st =
     (case create retry_cnt of
        Created tid \<Rightarrow> (True, store_slot i (Some tid) st)
      | Create_failed stored \<Rightarrow>
          (let st1 = store_slot i stored st in
           if retry_cnt > 0 then
             (False, add_log (Close_fd newsockfd)
                       (add_log (Error ''pthread_create failure, aborting RPC: %m'') st1))
           else
             create_loop create i newsockfd (retry_cnt + 1)
               (add_log (Usleep 1000) (add_log (Error ''pthread_create failure: %m'') st1))))"
  by pat_completeness auto
termination
  by (relation "measure (\<lambda>(create, i, newsockfd, retry_cnt, st). 1 - retry_cnt)") auto

declare create_loop.simps [simp del]

text \<open>The body of the accept loop (lines 123 to 159), entered with the slot \<open>i\<close>
  that \<open>_wait_for_server_thread\<close> returned.  \<open>addr\<close> is the address of the freshly
  allocated connection structure.  The result is the connection handed to a new
  worker, if one was started.\<close>

definition rpc_mgr_body ::
  "accept_result \<Rightarrow> (nat \<Rightarrow> create_result) \<Rightarrow> nat \<Rightarrow> nat \<Rightarrow> rpc_state
     \<Rightarrow> slurmdbd_conn option \<times> rpc_state" where
  "rpc_mgr_body acc create addr i st =
     (case acc of
        Accept_error e \<Rightarrow>
          (let st1 = free_server_thread 0 st
           in (None, if e \<noteq> EINTR then add_log (Error ''slurm_accept_msg_conn: %m'') st1
                     else st1))
      | Accepted newsockfd host \<Rightarrow>
          (let conn_arg = \<lparr>conn_id = addr, conn_fd = newsockfd, rem_host = host,
                           rem_port = 0, cluster_name = [], db_conn = 0, tres_str = []\<rparr>
           in case create_loop create i newsockfd 0 st of
                (started, st1) \<Rightarrow> (if started then Some conn_arg else None, st1)))"

text \<open>One round of the manager: admission, then the body when a slot was granted.\<close>

definition rpc_mgr_round ::
  "int \<Rightarrow> wakeup list \<Rightarrow> accept_result \<Rightarrow> (nat \<Rightarrow> create_result) \<Rightarrow> nat \<Rightarrow> rpc_state
     \<Rightarrow> (error + slurmdbd_conn option \<times> rpc_state) option" where
  "rpc_mgr_round now ws acc create addr st =
     (case wait_for_server_thread now st ws of
        None \<Rightarrow> None
      | Some (Inl e, st1) \<Rightarrow> Some (Inl e)
      | Some (Inr i, st1) \<Rightarrow>
          (if i \<ge> 0 then Some (Inr (rpc_mgr_body acc create addr (nat i) st1))
           else Some (Inr (None, st1))))"

section \<open>The connection worker\<close>

subsection \<open>The socket as the worker sees it\<close>

text \<open>The worker talks to the outside through \<open>poll\<close>, \<open>read\<close>, the request
  processor and \<open>slurm_persist_send_msg\<close>.  None of them is code of the file; they are
  the environment, and the model takes what they return as input.

  Each return of \<open>poll(&ufds, 1, -1)\<close> is a record: the return value, \<open>errno\<close>, the
  returned event bits, and the value \<open>shutdown_time\<close> has when the call returns (the
  signal thread writes it asynchronously).  The bit values are those of the system's
  \<open>poll.h\<close>.\<close>

record poll_ev =
  p_rc :: int
  p_errno :: errno
  p_revents :: "16 word"
  p_shutdown :: int

definition POLLIN :: "16 word" where "POLLIN = 0x001"
definition POLLERR :: "16 word" where "POLLERR = 0x008"
definition POLLHUP :: "16 word" where "POLLHUP = 0x010"
definition POLLNVAL :: "16 word" where "POLLNVAL = 0x020"

text \<open>\<open>_fd_readable\<close>.  The list is the sequence of returns of \<open>poll\<close> still to come;
  the timeout is infinite, so with no return left the call never comes back
  (\<open>None\<close>).  The result is the verdict, the log lines written, and the returns not
  yet consumed.\<close>

fun fd_readable :: "poll_ev list \<Rightarrow> (bool \<times> event list \<times> poll_ev list) option" where
  "fd_readable [] = None"
| "fd_readable (p # ps) =
     (if p_shutdown p \<noteq> 0 then Some (False, [], ps)
      else if p_rc p = - 1 then
        (if p_errno p = EINTR \<or> p_errno p = EAGAIN then fd_readable ps
         else Some (False, [Error ''poll: %m''], ps))
      else if p_revents p AND POLLHUP \<noteq> 0 \<and> p_revents p AND POLLIN = 0 then
        Some (False, [Debug3 ''Read connection %d closed''], ps)
      else if p_revents p AND POLLNVAL \<noteq> 0 then
        Some (False, [Error ''Connection %d is invalid''], ps)
      else if p_revents p AND POLLERR \<noteq> 0 then
        Some (False, [Error ''Connection %d experienced an error''], ps)
      else if p_revents p AND POLLIN = 0 then
        Some (False, [Error ''Connection %d events %d''], ps)
      else Some (True, [], ps))"

text \<open>The byte stream.  Each element is what one \<open>read\<close> finds: an error (\<open>read\<close>
  returns -1), or the bytes that have arrived so far.  \<open>read\<close> takes at most the count
  it asks for and leaves the rest of the chunk for the next call; an empty chunk is
  the end of the stream (\<open>read\<close> returns 0, and keeps returning 0), and so is the end
  of the list.\<close>

datatype rd = Avail "byte list" | Rd_error

fun read_fd :: "nat \<Rightarrow> rd list \<Rightarrow> int \<times> byte list \<times> rd list" where
  "read_fd n [] = (0, [], [])"
| "read_fd n (Rd_error # rs) = (- 1, [], rs)"
| "read_fd n (Avail bs # rs) =
     (if bs = [] then (0, [], Avail [] # rs)
      else if length bs \<le> n then (int (length bs), bs, rs)
      else (int n, take n bs, Avail (drop n bs) # rs))"

text \<open>\<open>ntohl\<close> applied to the four bytes that \<open>read\<close> stored in \<open>nw_size\<close>: the
  big-endian value of the bytes in the order they arrived.\<close>

fun ntohl :: "byte list \<Rightarrow> 32 word" where
  "ntohl [b0, b1, b2, b3] =
     push_bit 24 (ucast b0) OR push_bit 16 (ucast b1) OR push_bit 8 (ucast b2) OR ucast b3"
| "ntohl bs = 0"

text \<open>The collaborators.  \<open>proc_req\<close> gets the connection, the message, the flag
  \<open>first\<close> and the current values of \<open>buffer\<close> and \<open>uid\<close> (it writes both through
  pointers) and returns the status with their new values and the connection as it
  left it.  \<open>send_msg k b\<close> is the status of the \<open>k\<close>-th call of
  \<open>slurm_persist_send_msg\<close> on this connection, made with buffer \<open>b\<close>.\<close>

record collab =
  proc_req :: "slurmdbd_conn \<Rightarrow> byte list \<Rightarrow> bool \<Rightarrow> buf option \<Rightarrow> 32 word
                 \<Rightarrow> rc \<times> buf option \<times> 32 word \<times> slurmdbd_conn"
  send_msg :: "nat \<Rightarrow> buf option \<Rightarrow> rc"

subsection \<open>The local variables of \<open>_service_connection\<close>\<close>

record worker =
  w_conn :: slurmdbd_conn
  w_uid :: "32 word"
  w_first :: bool
  w_fini :: bool
  w_buffer :: "buf option"
  w_polls :: "poll_ev list"
  w_stream :: "rd list"
  w_sent :: nat
  w_trace :: "event list"

text \<open>The locals as lines 188 to 193 initialise them, with the returns of \<open>poll\<close> and
  the stream the worker is going to see.  \<open>uid\<close> starts as \<open>NO_VAL\<close>, a constant of
  a header that is not part of the sources at hand, so its value is a parameter.\<close>

definition worker_init :: "32 word \<Rightarrow> slurmdbd_conn \<Rightarrow> poll_ev list \<Rightarrow> rd list \<Rightarrow> worker" where
  "worker_init no_val conn ps rs =
     \<lparr>w_conn = conn, w_uid = no_val, w_first = True, w_fini = False, w_buffer = None,
      w_polls = ps, w_stream = rs, w_sent = 0, w_trace = []\<rparr>"

definition trace :: "event list \<Rightarrow> worker \<Rightarrow> worker" where
  "trace evs w = w\<lparr>w_trace := w_trace w @ evs\<rparr>"

text \<open>\<open>read(fd, msg + offset, msg_size - offset)\<close> stores what it got at \<open>offset\<close>.\<close>

definition store_at :: "byte list \<Rightarrow> nat \<Rightarrow> byte list \<Rightarrow> byte list" where
  "store_at msg offset data = take offset msg @ data @ drop (offset + length data) msg"

subsection \<open>The loop of \<open>_service_connection\<close>\<close>

text \<open>Every return of \<open>_fd_readable\<close> has consumed at least one return of \<open>poll\<close>;
  this is what makes the loops below terminate on a finite environment.\<close>

lemma fd_readable_shorter:
  "fd_readable ps = Some (ok, evs, ps') \<Longrightarrow> length ps' < length ps"
proof (induction ps)
  case Nil
  then show ?case by simp
next
  case (Cons p ps)
  then show ?case by (fastforce split: if_splits)
qed

text \<open>The payload loop, lines 222 to 232: \<open>while (msg_size > offset)\<close>.  It returns
  the final \<open>offset\<close> and the contents of \<open>msg\<close>.\<close>

function recv_msg :: "nat \<Rightarrow> nat \<Rightarrow> byte list \<Rightarrow> worker \<Rightarrow> (nat \<times> byte list \<times> worker) option" where
  "recv_msg msg_size offset msg w =
     (if msg_size > offset then
        (case fd_readable (w_polls w) of
           None \<Rightarrow> None
         | Some (ok, evs, ps) \<Rightarrow>
             (let w1 = trace evs (w\<lparr>w_polls := ps\<rparr>) in
              if \<not> ok then Some (offset, msg, w1)
              else
                (case read_fd (msg_size - offset) (w_stream w1) of
                   (msg_read, data, rs) \<Rightarrow>
                     (let w2 = w1\<lparr>w_stream := rs\<rparr> in
                      if msg_read \<le> 0 then Some (offset, msg, trace [Error ''read(%d): %m''] w2)
                      else recv_msg msg_size (offset + nat msg_read) (store_at msg offset data) w2))))
      else Some (offset, msg, w))"
  by pat_completeness auto
termination
  by (relation "measure (\<lambda>(msg_size, offset, msg, w). length (w_polls w))")
     (auto simp: trace_def dest: fd_readable_shorter)

declare recv_msg.simps [simp del]

text \<open>Lines 233 to 249: dispatch when the whole message arrived, the synthesized
  error response otherwise.\<close>

definition handle_msg :: "collab \<Rightarrow> nat \<Rightarrow> nat \<Rightarrow> byte list \<Rightarrow> worker \<Rightarrow> worker" where
  "handle_msg C msg_size offset msg w =
     (if msg_size = offset then
        (case proc_req C (w_conn w) msg (w_first w) (w_buffer w) (w_uid w) of
           (rc, buffer, uid, conn) \<Rightarrow>
             (let w1 = trace [Proc_req msg (w_first w)]
                         (w\<lparr>w_conn := conn, w_buffer := buffer, w_uid := uid, w_first := False\<rparr>)
              in if rc \<noteq> SLURM_SUCCESS \<and> rc \<noteq> ACCOUNTING_FIRST_REG then
                   (let w2 = trace [Error ''Processing last message from connection %d(%s) uid(%d)''] w1
                    in if rc = ESLURM_ACCESS_DENIED \<or> rc = SLURM_PROTOCOL_VERSION_ERROR
                       then w2\<lparr>w_fini := True\<rparr> else w2)
                 else w1))
      else w\<lparr>w_buffer := Some (Rc_msg SLURM_ERROR ''Bad offset'' 0), w_fini := True\<rparr>)"

text \<open>Lines 251 to 263: the response is sent; a failed send ends the session.  (The
  release of \<open>buffer\<close> and \<open>msg\<close> that follows changes nothing the model records.)\<close>

definition send_reply :: "collab \<Rightarrow> worker \<Rightarrow> worker" where
  "send_reply C w =
     (let w1 = trace [Send_msg (w_buffer w)] (w\<lparr>w_sent := w_sent w + 1\<rparr>)
      in if send_msg C (w_sent w) (w_buffer w) \<noteq> SLURM_SUCCESS then
           (if rem_port (w_conn w1) \<noteq> 0
            then trace [Debug ''Problem sending response to connection %d(%s) uid(%d)''] w1
            else w1)\<lparr>w_fini := True\<rparr>
         else w1)"

text \<open>Lines 220 to 263: everything that follows an accepted length.\<close>

definition service_frame :: "collab \<Rightarrow> nat \<Rightarrow> worker \<Rightarrow> worker option" where
  "service_frame C msg_size w =
     (case recv_msg msg_size 0 (replicate msg_size 0) w of
        None \<Rightarrow> None
      | Some (offset, msg, w1) \<Rightarrow> Some (send_reply C (handle_msg C msg_size offset msg w1)))"

text \<open>One execution of the loop body, lines 200 to 263.  The flag in the result is
  \<open>True\<close> when the body was left by \<open>break\<close>.\<close>

definition service_iter :: "collab \<Rightarrow> worker \<Rightarrow> (bool \<times> worker) option" where
  "service_iter C w =
     (case fd_readable (w_polls w) of
        None \<Rightarrow> None
      | Some (ok, evs, ps) \<Rightarrow>
          (let w1 = trace evs (w\<lparr>w_polls := ps\<rparr>) in
           if \<not> ok then Some (True, w1)
           else
             (case read_fd 4 (w_stream w1) of
                (msg_read, nw_size, rs) \<Rightarrow>
                  (let w2 = w1\<lparr>w_stream := rs\<rparr> in
                   if msg_read = 0 then Some (True, w2)
                   else if msg_read \<noteq> 4 then
                     Some (True, trace [Error ''Could not read msg_size from connection %d(%s) uid(%d)''] w2)
                   else
                     (let msg_size = unat (ntohl nw_size) in
                      if msg_size < 2 \<or> msg_size > MAX_MSG_SIZE then
                        Some (True, trace [Error ''Invalid msg_size (%u) from connection %d(%s) uid(%d)''] w2)
                      else
                        (case service_frame C msg_size w2 of
                           None \<Rightarrow> None
                         | Some w3 \<Rightarrow> Some (False, w3)))))))"

text \<open>The payload loop never gives back a return of \<open>poll\<close>, and an iteration that
  ends without \<open>break\<close> has consumed at least one.\<close>

lemma recv_msg_polls:
  "recv_msg msg_size offset msg w = Some (offset', msg', w')
     \<Longrightarrow> length (w_polls w') \<le> length (w_polls w)"
proof (induction msg_size offset msg w rule: recv_msg.induct)
  case (1 msg_size offset msg w)
  show ?case
  proof (cases "msg_size > offset")
    case False
    with "1.prems" show ?thesis by (simp add: recv_msg.simps)
  next
    case True
    show ?thesis
    proof (cases "fd_readable (w_polls w)")
      case None
      with True "1.prems" show ?thesis by (simp add: recv_msg.simps)
    next
      case (Some r)
      obtain ok evs ps where r: "r = (ok, evs, ps)" by (cases r)
      have shorter: "length ps < length (w_polls w)"
        using Some r fd_readable_shorter by blast
      obtain msg_read data rs where
        rd: "read_fd (msg_size - offset) (w_stream (trace evs (w\<lparr>w_polls := ps\<rparr>))) = (msg_read, data, rs)"
        by (cases "read_fd (msg_size - offset) (w_stream (trace evs (w\<lparr>w_polls := ps\<rparr>)))")
      show ?thesis
      proof (cases "ok \<and> \<not> msg_read \<le> 0")
        case False
        with True Some r rd "1.prems" shorter show ?thesis
          by (auto simp: recv_msg.simps [of msg_size offset msg w] trace_def Let_def
                   split: if_splits)
      next
        case go: True
        let ?w2 = "(trace evs (w\<lparr>w_polls := ps\<rparr>))\<lparr>w_stream := rs\<rparr>"
        have "recv_msg msg_size (offset + nat msg_read) (store_at msg offset data) ?w2
                = Some (offset', msg', w')"
          using True Some r rd go "1.prems"
          by (simp add: recv_msg.simps [of msg_size offset msg w] Let_def)
        then have "length (w_polls w') \<le> length (w_polls ?w2)"
          using "1.IH" [OF True Some r [symmetric] refl refl _ rd [symmetric] refl refl] go
          by simp
        with shorter show ?thesis by (simp add: trace_def)
      qed
    qed
  qed
qed

lemma handle_msg_polls: "w_polls (handle_msg C msg_size offset msg w) = w_polls w"
  by (simp add: handle_msg_def trace_def Let_def split: prod.splits)

lemma send_reply_polls: "w_polls (send_reply C w) = w_polls w"
  by (simp add: send_reply_def trace_def Let_def)

lemma service_frame_polls:
  "service_frame C msg_size w = Some w' \<Longrightarrow> length (w_polls w') \<le> length (w_polls w)"
  by (auto simp: service_frame_def handle_msg_polls send_reply_polls
           split: option.splits dest: recv_msg_polls)

lemma service_iter_shorter:
  assumes "service_iter C w = Some (brk, w')"
  shows "length (w_polls w') < length (w_polls w)"
proof -
  obtain ok evs ps where rd: "fd_readable (w_polls w) = Some (ok, evs, ps)"
    using assms by (auto simp: service_iter_def split: option.splits)
  have shorter: "length ps < length (w_polls w)"
    using rd by (rule fd_readable_shorter)
  have "length (w_polls w') \<le> length ps"
    using assms rd
    by (auto simp: service_iter_def trace_def Let_def
             split: option.splits prod.splits if_splits dest!: service_frame_polls)
  with shorter show ?thesis by simp
qed

text \<open>The loop \<open>while (!fini)\<close>, lines 199 to 264.\<close>

function service_loop :: "collab \<Rightarrow> worker \<Rightarrow> worker option" where
  "service_loop C w =
     (if \<not> w_fini w then
        (case service_iter C w of
           None \<Rightarrow> None
         | Some (brk, w1) \<Rightarrow> if brk then Some w1 else service_loop C w1)
      else Some w)"
  by pat_completeness auto
termination
  by (relation "measure (\<lambda>(C, w). length (w_polls w))")
     (auto dest: service_iter_shorter)

declare service_loop.simps [simp del]

subsection \<open>Teardown\<close>

text \<open>Lines 283 to 290: the scan of \<open>registered_clusters\<close> with a list iterator.  The
  first entry that is this connection is deleted and the scan stops.  The result is
  the events of the scan and the list that is left.\<close>

fun registry_scan :: "nat \<Rightarrow> nat list \<Rightarrow> event list \<times> nat list" where
  "registry_scan c [] = ([], [])"
| "registry_scan c (x # xs) =
     (if c = x then ([List_delete_item x], xs)
      else (case registry_scan c xs of (evs, ys) \<Rightarrow> (evs, x # ys)))"

text \<open>Lines 266 to 304.  \<open>self\<close> is \<open>pthread_self()\<close>, \<open>reg\<close> the registry and \<open>st\<close> the
  shared state when the worker gets here.\<close>

definition teardown ::
  "pthread_t \<Rightarrow> slurmdbd_conn \<Rightarrow> nat list \<Rightarrow> rpc_state \<Rightarrow> event list \<times> nat list \<times> rpc_state" where
  "teardown self conn reg st =
     (case
        (if rem_port conn \<noteq> 0 then
           (case
              (if shutdown_time st = 0 then
                 (case registry_scan (conn_id conn) reg of
                    (evs, reg1) \<Rightarrow>
                      ([Debug ''cluster %s has disconnected'', Fini_ctld (db_conn conn),
                        Registry_lock] @ evs @ [Registry_unlock], reg1))
               else ([], reg))
            of (evs, reg1) \<Rightarrow> (evs @ [Commit 1], reg1))
         else ([], reg))
      of (evs, reg1) \<Rightarrow>
        (evs @ [Close_connection, Members_destroy, Debug2 ''Closed connection %d uid(%d)'',
                Xfree_tres_str, Xfree_conn],
         reg1, free_server_thread self st))"

text \<open>The whole worker: the loop, then the teardown.  \<open>None\<close> when the worker is still
  blocked in \<open>poll\<close> at the end of the environment.\<close>

definition service_connection ::
  "collab \<Rightarrow> pthread_t \<Rightarrow> worker \<Rightarrow> nat list \<Rightarrow> rpc_state \<Rightarrow> (worker \<times> nat list \<times> rpc_state) option" where
  "service_connection C self w reg st =
     (case service_loop C (trace [Debug2 ''Opened connection %d from %s''] w) of
        None \<Rightarrow> None
      | Some w1 \<Rightarrow>
          (case teardown self (w_conn w1) reg st of
             (evs, reg1, st1) \<Rightarrow> Some (trace evs w1, reg1, st1)))"

text \<open>The events that only the teardown produces (the two log lines of the teardown
  share their constructors with log lines of the loop and are not listed).\<close>

fun is_teardown :: "event \<Rightarrow> bool" where
  "is_teardown (Fini_ctld h) = True"
| "is_teardown Registry_lock = True"
| "is_teardown (List_delete_item c) = True"
| "is_teardown Registry_unlock = True"
| "is_teardown (Commit f) = True"
| "is_teardown Close_connection = True"
| "is_teardown Members_destroy = True"
| "is_teardown Xfree_tres_str = True"
| "is_teardown Xfree_conn = True"
| "is_teardown e = False"

subsection \<open>A test bench\<close>

text \<open>Concrete collaborators for running the worker on examples: a connection, an
  initial value for \<open>uid\<close>, a request processor that answers every message with a fixed status and the message
  itself as response, a send that returns a fixed status, and two returns of
  \<open>poll\<close> (input ready; input ready with the shutdown time set).\<close>

definition test_conn :: "nat \<Rightarrow> slurmdbd_conn" where
  "test_conn port =
     \<lparr>conn_id = 42, conn_fd = 5, rem_host = ''10.0.0.1'', rem_port = port,
      cluster_name = ''c1'', db_conn = 3, tres_str = []\<rparr>"

definition test_uid :: "32 word" where
  "test_uid = 0xfffffffe"

definition echo :: "rc \<Rightarrow> rc \<Rightarrow> collab" where
  "echo status sent =
     \<lparr>proc_req = (\<lambda>conn msg first buffer uid. (status, Some (Proc_buf msg), uid, conn)),
      send_msg = (\<lambda>k b. sent)\<rparr>"

definition pollin :: poll_ev where
  "pollin = \<lparr>p_rc = 1, p_errno = EOTHER, p_revents = POLLIN, p_shutdown = 0\<rparr>"

definition pollin_shutdown :: poll_ev where
  "pollin_shutdown = \<lparr>p_rc = 1, p_errno = EOTHER, p_revents = POLLIN, p_shutdown = 1700000000\<rparr>"

section \<open>Admission control: the properties\<close>

subsection \<open>The table scan finds the lowest index\<close>

lemma all_from_Suc:
  assumes "\<not> P i" and "\<forall>j. Suc i \<le> j \<and> j < n \<longrightarrow> \<not> P j"
  shows "\<forall>j. i \<le> j \<and> j < n \<longrightarrow> \<not> P (j::nat)"
proof (intro allI impI)
  fix j
  assume j: "i \<le> j \<and> j < n"
  show "\<not> P j"
  proof (cases "j = i")
    case True
    with assms(1) show ?thesis by simp
  next
    case False
    with j have "Suc i \<le> j \<and> j < n" by simp
    with assms(2) show ?thesis by blast
  qed
qed

lemma scan_from_Some:
  "scan_from P i = Some k \<Longrightarrow> i \<le> k \<and> k < MAX_THREAD_COUNT \<and> P k \<and> (\<forall>j. i \<le> j \<and> j < k \<longrightarrow> \<not> P j)"
proof (induction P i rule: scan_from.induct)
  case (1 P i)
  show ?case
  proof (cases "i < MAX_THREAD_COUNT \<and> \<not> P i")
    case True
    then have "scan_from P (Suc i) = Some k"
      using "1.prems" by (simp add: scan_from.simps [of P i])
    then have "Suc i \<le> k \<and> k < MAX_THREAD_COUNT \<and> P k \<and> (\<forall>j. Suc i \<le> j \<and> j < k \<longrightarrow> \<not> P j)"
      using "1.IH" True by simp
    with True all_from_Suc [of P i k] show ?thesis
      by simp
  next
    case False
    with "1.prems" show ?thesis
      by (auto simp: scan_from.simps [of P i] split: if_splits)
  qed
qed

lemma scan_from_None:
  "scan_from P i = None \<longleftrightarrow> (\<forall>j. i \<le> j \<and> j < MAX_THREAD_COUNT \<longrightarrow> \<not> P j)"
proof (induction P i rule: scan_from.induct)
  case (1 P i)
  show ?case
  proof (cases "i < MAX_THREAD_COUNT \<and> \<not> P i")
    case True
    then have "scan_from P i = scan_from P (Suc i)"
      by (simp add: scan_from.simps [of P i])
    moreover have "scan_from P (Suc i) = None \<longleftrightarrow> (\<forall>j. Suc i \<le> j \<and> j < MAX_THREAD_COUNT \<longrightarrow> \<not> P j)"
      using "1.IH" True by simp
    moreover have "(\<forall>j. Suc i \<le> j \<and> j < MAX_THREAD_COUNT \<longrightarrow> \<not> P j)
                     \<longleftrightarrow> (\<forall>j. i \<le> j \<and> j < MAX_THREAD_COUNT \<longrightarrow> \<not> P j)"
      using True all_from_Suc [of P i MAX_THREAD_COUNT] by auto
    ultimately show ?thesis
      by simp
  next
    case False
    then show ?thesis
      by (auto simp: scan_from.simps [of P i])
  qed
qed

lemma scan_from_first:
  assumes "k < MAX_THREAD_COUNT" "P k" "\<forall>j. i \<le> j \<and> j < k \<longrightarrow> \<not> P j" "i \<le> k"
  shows "scan_from P i = Some k"
proof (cases "scan_from P i")
  case None
  with assms show ?thesis by (auto simp: scan_from_None)
next
  case (Some k')
  from scan_from_Some [OF Some] assms have "k' = k"
    by (metis linorder_neqE_nat)
  with Some show ?thesis by simp
qed

subsection \<open>The counter stays within the table size\<close>

lemma wait_pass_count:
  "thread_count st \<le> int MAX_THREAD_COUNT \<Longrightarrow>
   thread_count (snd (wait_pass p now st)) \<le> int MAX_THREAD_COUNT"
  by (auto simp: wait_pass_def Let_def add_log_def split: option.splits)

lemma free_server_thread_count:
  "thread_count (free_server_thread t st) = (if thread_count st > 0 then thread_count st - 1 else thread_count st)"
  by (auto simp: free_server_thread_def Let_def add_log_def split: option.splits)

lemma step_count:
  "thread_count st \<le> int MAX_THREAD_COUNT \<Longrightarrow> thread_count (step st x) \<le> int MAX_THREAD_COUNT"
  by (cases x) (auto simp: wait_pass_count free_server_thread_count)

lemma run_count:
  "thread_count st \<le> int MAX_THREAD_COUNT \<Longrightarrow> thread_count (run st ops) \<le> int MAX_THREAD_COUNT"
  unfolding run_def
  by (induction ops arbitrary: st) (auto simp: step_count)

lemma wait_pass_blocked:
  assumes "shutdown_time st = 0" "thread_count st = int MAX_THREAD_COUNT"
  shows "fst (wait_pass p now st) = Cond_wait False"
    and "thread_count (snd (wait_pass p now st)) = int MAX_THREAD_COUNT"
    and "shutdown_time (snd (wait_pass p now st)) = 0"
    and "slave_thread_id (snd (wait_pass p now st)) = slave_thread_id st"
  using assms by (simp_all add: wait_pass_def Let_def add_log_def)

lemma wait_loop_blocked:
  assumes "\<forall>w\<in>set ws. others w = []"
    and "shutdown_time st = 0" "thread_count st = int MAX_THREAD_COUNT"
  shows "wait_loop p now st ws = None"
  using assms
proof (induction ws arbitrary: p now st)
  case Nil
  obtain r st1 where r: "wait_pass p now st = (r, st1)" by (cases "wait_pass p now st")
  with wait_pass_blocked(1) [OF Nil(2,3), of p now] have "r = Cond_wait False" by simp
  with r show ?case by (simp add: wait_loop.simps)
next
  case (Cons w ws)
  obtain r st1 where r: "wait_pass p now st = (r, st1)" by (cases "wait_pass p now st")
  with wait_pass_blocked [OF Cons.prems(2,3), of p now]
  have st1: "r = Cond_wait False" "thread_count st1 = int MAX_THREAD_COUNT" "shutdown_time st1 = 0"
    by simp_all
  have w: "others w = []" using Cons.prems(1) by simp
  have "wait_loop False (clock w) (wake w st1) ws = None"
    using Cons.prems(1) st1 w by (intro Cons.IH) (simp_all add: wake_def)
  with r st1 show ?case by (simp add: wait_loop.simps [of p now st])
qed

lemma wait_pass_granted:
  assumes "wait_pass p now st = (Leave (Inr i), st')" "0 \<le> i"
  shows "thread_count st < int MAX_THREAD_COUNT \<and> st' = st\<lparr>thread_count := thread_count st + 1\<rparr>
         \<and> nat i < MAX_THREAD_COUNT \<and> slave_thread_id st (nat i) = 0
         \<and> (\<forall>j<nat i. slave_thread_id st j \<noteq> 0)"
proof -
  have sd: "shutdown_time st = 0" and lt: "thread_count st < int MAX_THREAD_COUNT"
    using assms by (auto simp: wait_pass_def Let_def split: if_splits)
  with assms obtain k where k: "scan_from (\<lambda>i. slave_thread_id st i = 0) 0 = Some k"
    and i: "i = int k" and st': "st' = st\<lparr>thread_count := thread_count st + 1\<rparr>"
    by (auto simp: wait_pass_def Let_def split: option.splits)
  from scan_from_Some [OF k] i st' lt show ?thesis by simp
qed

lemma wait_pass_fatal:
  assumes "shutdown_time st = 0" "thread_count st < int MAX_THREAD_COUNT"
    and "\<forall>j<MAX_THREAD_COUNT. slave_thread_id st j \<noteq> 0"
  shows "wait_pass p now st =
           (Leave (Inl (Fatal ''No free slave_thread_id'')), st\<lparr>thread_count := thread_count st + 1\<rparr>)"
proof -
  have "scan_from (\<lambda>i. slave_thread_id st i = 0) 0 = None"
    using assms(3) by (simp add: scan_from_None)
  with assms(1,2) show ?thesis by (simp add: wait_pass_def Let_def)
qed

lemma init_count: "thread_count init_state = 0"
  by (simp add: init_state_def)

text \<open>Admission passes, releases and thread creations leave the shutdown time alone,
  so it is still zero after any sequence of them from the start state.\<close>

lemma wait_pass_shutdown: "shutdown_time (snd (wait_pass p now st)) = shutdown_time st"
  by (simp add: wait_pass_def Let_def add_log_def split: option.splits)

lemma free_server_thread_shutdown:
  "shutdown_time (free_server_thread t st) = shutdown_time st"
  by (simp add: free_server_thread_def Let_def add_log_def split: option.splits)

lemma run_shutdown:
  "\<forall>x\<in>set ops. \<forall>t. x \<noteq> Shutdown t \<Longrightarrow> shutdown_time (run st ops) = shutdown_time st"
  unfolding run_def
proof (induction ops arbitrary: st)
  case Nil
  then show ?case by simp
next
  case (Cons x xs)
  have "shutdown_time (step st x) = shutdown_time st"
    using Cons.prems
    by (cases x) (simp_all add: wait_pass_shutdown free_server_thread_shutdown)
  with Cons show ?case by simp
qed

lemma run_acquires:
  "shutdown_time st = 0 \<Longrightarrow> thread_count st + int n \<le> int MAX_THREAD_COUNT \<Longrightarrow>
   thread_count (run st (replicate n (Acquire p now))) = thread_count st + int n"
  unfolding run_def
proof (induction n arbitrary: st)
  case 0
  then show ?case by simp
next
  case (Suc n)
  have "thread_count (snd (wait_pass p now st)) = thread_count st + 1"
    using Suc.prems by (simp add: wait_pass_def Let_def split: option.splits)
  moreover have "shutdown_time (snd (wait_pass p now st)) = 0"
    using Suc.prems by (simp add: wait_pass_shutdown)
  ultimately show ?case
    using Suc.IH [of "snd (wait_pass p now st)"] Suc.prems by simp
qed

text \<open>The bound also holds for the whole function, whatever happens while it
  waits.\<close>

lemma other_step_count:
  "thread_count st \<le> int MAX_THREAD_COUNT \<Longrightarrow> thread_count (other_step st x) \<le> int MAX_THREAD_COUNT"
  by (cases x) (auto simp: free_server_thread_count)

lemma wake_count:
  "thread_count st \<le> int MAX_THREAD_COUNT \<Longrightarrow> thread_count (wake w st) \<le> int MAX_THREAD_COUNT"
proof -
  have "thread_count s \<le> int MAX_THREAD_COUNT \<Longrightarrow>
        thread_count (foldl other_step s xs) \<le> int MAX_THREAD_COUNT" for s xs
    by (induction xs arbitrary: s) (auto simp: other_step_count)
  then show "thread_count st \<le> int MAX_THREAD_COUNT \<Longrightarrow> ?thesis"
    by (simp add: wake_def Let_def)
qed

lemma wait_loop_count:
  "wait_loop p now st ws = Some (r, st') \<Longrightarrow> thread_count st \<le> int MAX_THREAD_COUNT
     \<Longrightarrow> thread_count st' \<le> int MAX_THREAD_COUNT"
proof (induction ws arbitrary: p now st)
  case Nil
  then show ?case
    using wait_pass_count [of st p now]
    by (auto simp: wait_loop.simps [of p now st] split: prod.splits pass.splits)
next
  case (Cons w ws)
  obtain q st1 where q: "wait_pass p now st = (q, st1)" by (cases "wait_pass p now st")
  then have st1: "thread_count st1 \<le> int MAX_THREAD_COUNT"
    using wait_pass_count [of st p now] Cons.prems(2) by simp
  show ?case
  proof (cases q)
    case (Leave x)
    with q Cons.prems(1) st1 show ?thesis by (simp add: wait_loop.simps [of p now st])
  next
    case (Cond_wait p')
    with q Cons.prems(1) have "wait_loop p' (clock w) (wake w st1) ws = Some (r, st')"
      by (simp add: wait_loop.simps [of p now st])
    from Cons.IH [OF this wake_count [OF st1]] show ?thesis .
  qed
qed

text \<open>
  Claim C1 (admission bound).  Whatever sequence of admission passes, releases, thread
  creations and shutdown requests runs from the start state, \<open>thread_count\<close> never
  exceeds \<open>MAX_THREAD_COUNT\<close> = 100.  In a state reached by admissions, releases and
  thread creations in which the count equals 100, \<open>_wait_for_server_thread\<close> does not
  return until it is woken.  More generally, while the count equals 100 and the
  shutdown time is not set, a pass of its loop grants nothing: it goes to
  \<open>slurm_cond_wait\<close> with count and table unchanged, and the function does not return
  as long as its wake-ups bring no release.  A pass that returns a slot index has
  found the count below 100, has incremented it by one, and the index is the lowest
  entry of the table that is zero.  If the count is below 100 and no entry is zero,
  the function ends in the fatal error "No free slave\_thread\_id".  Whenever the
  function returns, after any number of waits and whatever other threads released
  meanwhile, the count is still at most 100.
\<close>

theorem admission_bound:
  "thread_count (run init_state ops) \<le> int MAX_THREAD_COUNT
   \<and> ((\<forall>x\<in>set ops. \<forall>t. x \<noteq> Shutdown t)
        \<and> thread_count (run init_state ops) = int MAX_THREAD_COUNT \<longrightarrow>
        fst (wait_pass p now (run init_state ops)) = Cond_wait False
        \<and> wait_for_server_thread now (run init_state ops) [] = None)
   \<and> (shutdown_time st = 0 \<and> thread_count st = int MAX_THREAD_COUNT \<longrightarrow>
        fst (wait_pass p now st) = Cond_wait False
        \<and> thread_count (snd (wait_pass p now st)) = int MAX_THREAD_COUNT
        \<and> slave_thread_id (snd (wait_pass p now st)) = slave_thread_id st
        \<and> ((\<forall>w\<in>set ws. others w = []) \<longrightarrow> wait_for_server_thread now st ws = None))
   \<and> (wait_pass p now st = (Leave (Inr i), st') \<and> 0 \<le> i \<longrightarrow>
        thread_count st < int MAX_THREAD_COUNT
        \<and> st' = st\<lparr>thread_count := thread_count st + 1\<rparr>
        \<and> nat i < MAX_THREAD_COUNT \<and> slave_thread_id st (nat i) = 0
        \<and> (\<forall>j<nat i. slave_thread_id st j \<noteq> 0))
   \<and> (shutdown_time st = 0 \<and> thread_count st < int MAX_THREAD_COUNT
        \<and> (\<forall>j<MAX_THREAD_COUNT. slave_thread_id st j \<noteq> 0) \<longrightarrow>
        wait_for_server_thread now st ws =
          Some (Inl (Fatal ''No free slave_thread_id''), st\<lparr>thread_count := thread_count st + 1\<rparr>))
   \<and> (thread_count st \<le> int MAX_THREAD_COUNT
        \<and> wait_for_server_thread now st ws = Some (r, st2) \<longrightarrow>
        thread_count st2 \<le> int MAX_THREAD_COUNT)"
proof (intro conjI impI)
  show "thread_count (run init_state ops) \<le> int MAX_THREAD_COUNT"
    by (rule run_count) (simp add: init_count)
next
  assume h: "(\<forall>x\<in>set ops. \<forall>t. x \<noteq> Shutdown t)
        \<and> thread_count (run init_state ops) = int MAX_THREAD_COUNT"
  then have sd: "shutdown_time (run init_state ops) = 0"
    using run_shutdown [of ops init_state] by (simp add: init_state_def)
  from h sd show "fst (wait_pass p now (run init_state ops)) = Cond_wait False"
    by (simp add: wait_pass_blocked)
  from h sd show "wait_for_server_thread now (run init_state ops) [] = None"
    by (simp add: wait_for_server_thread_def wait_loop_blocked)
next
  assume "shutdown_time st = 0 \<and> thread_count st = int MAX_THREAD_COUNT"
  then show "fst (wait_pass p now st) = Cond_wait False"
    by (simp add: wait_pass_blocked)
next
  assume "shutdown_time st = 0 \<and> thread_count st = int MAX_THREAD_COUNT"
  then show "thread_count (snd (wait_pass p now st)) = int MAX_THREAD_COUNT"
    by (simp add: wait_pass_blocked)
next
  assume "shutdown_time st = 0 \<and> thread_count st = int MAX_THREAD_COUNT"
  then show "slave_thread_id (snd (wait_pass p now st)) = slave_thread_id st"
    by (simp add: wait_pass_blocked)
next
  assume "shutdown_time st = 0 \<and> thread_count st = int MAX_THREAD_COUNT"
    and "\<forall>w\<in>set ws. others w = []"
  then show "wait_for_server_thread now st ws = None"
    by (simp add: wait_for_server_thread_def wait_loop_blocked)
next
  assume g: "wait_pass p now st = (Leave (Inr i), st') \<and> 0 \<le> i"
  then have g': "wait_pass p now st = (Leave (Inr i), st')" "0 \<le> i" by simp_all
  note r = wait_pass_granted [OF g']
  from r show "thread_count st < int MAX_THREAD_COUNT" by simp
  from r show "st' = st\<lparr>thread_count := thread_count st + 1\<rparr>" by simp
  from r show "nat i < MAX_THREAD_COUNT" by simp
  from r show "slave_thread_id st (nat i) = 0" by simp
  from r show "\<forall>j<nat i. slave_thread_id st j \<noteq> 0" by simp
next
  assume "shutdown_time st = 0 \<and> thread_count st < int MAX_THREAD_COUNT
            \<and> (\<forall>j<MAX_THREAD_COUNT. slave_thread_id st j \<noteq> 0)"
  then show "wait_for_server_thread now st ws =
          Some (Inl (Fatal ''No free slave_thread_id''), st\<lparr>thread_count := thread_count st + 1\<rparr>)"
    by (simp add: wait_for_server_thread_def wait_loop.simps [of True now st] wait_pass_fatal)
next
  assume "thread_count st \<le> int MAX_THREAD_COUNT
        \<and> wait_for_server_thread now st ws = Some (r, st2)"
  then show "thread_count st2 \<le> int MAX_THREAD_COUNT"
    using wait_loop_count [of True now st ws r st2]
    by (simp add: wait_for_server_thread_def)
qed

theorem admission_bound_witness:
  "thread_count (run init_state [Acquire True 0, Create 0 7, Acquire True 0, Release 7]) \<le> 100
   \<and> thread_count (run init_state (replicate 100 (Acquire True 0))) = 100
   \<and> wait_for_server_thread 5 (run init_state (replicate 100 (Acquire True 0))) [] = None
   \<and> shutdown_time (init_state\<lparr>thread_count := 100\<rparr>) = 0
   \<and> fst (wait_pass True 5 (init_state\<lparr>thread_count := 100\<rparr>)) = Cond_wait False
   \<and> wait_for_server_thread 5 (init_state\<lparr>thread_count := 100\<rparr>) [\<lparr>others = [], clock = 9\<rparr>] = None
   \<and> wait_pass True 0 (init_state\<lparr>slave_thread_id := (\<lambda>_. 0)(0 := 7), thread_count := 1\<rparr>)
       = (Leave (Inr 1), init_state\<lparr>slave_thread_id := (\<lambda>_. 0)(0 := 7), thread_count := 2\<rparr>)
   \<and> thread_count (init_state\<lparr>slave_thread_id := (\<lambda>_. 0)(0 := 7), thread_count := 1\<rparr>) < 100
   \<and> wait_for_server_thread 0 (init_state\<lparr>slave_thread_id := (\<lambda>_. 1)\<rparr>) []
       = Some (Inl (Fatal ''No free slave_thread_id''),
               init_state\<lparr>slave_thread_id := (\<lambda>_. 1), thread_count := 1\<rparr>)
   \<and> wait_for_server_thread 0 init_state [] = Some (Inr 0, init_state\<lparr>thread_count := 1\<rparr>)"
proof -
  let ?full = "init_state\<lparr>thread_count := 100\<rparr>"
  let ?one = "init_state\<lparr>slave_thread_id := (\<lambda>_. 0)(0 := 7), thread_count := 1\<rparr>"
  let ?bad = "init_state\<lparr>slave_thread_id := (\<lambda>_. 1)\<rparr>"
  let ?ops = "replicate 100 (Acquire True 0)"
  have scan: "scan_from (\<lambda>i. ((\<lambda>_. 0)(0 := 7 :: nat)) i = (0::nat)) 0 = Some 1"
    by (rule scan_from_first) (simp_all add: MAX_THREAD_COUNT_def)
  have pass: "wait_pass True 0 ?one = (Leave (Inr 1), ?one\<lparr>thread_count := 2\<rparr>)"
    using scan by (simp add: wait_pass_def init_state_def MAX_THREAD_COUNT_def)
  have a: "thread_count (run init_state [Acquire True 0, Create 0 7, Acquire True 0, Release 7]) \<le> 100"
    using admission_bound [where ops = "[Acquire True 0, Create 0 7, Acquire True 0, Release 7]",
            THEN conjunct1]
    by (simp add: MAX_THREAD_COUNT_def)
  have cnt: "thread_count (run init_state ?ops) = 100"
    using run_acquires [of init_state 100 True 0]
    by (simp add: init_state_def MAX_THREAD_COUNT_def)
  have h: "(\<forall>x\<in>set ?ops. \<forall>t. x \<noteq> Shutdown t)
        \<and> thread_count (run init_state ?ops) = int MAX_THREAD_COUNT"
    using cnt by (simp add: MAX_THREAD_COUNT_def)
  have r: "wait_for_server_thread 5 (run init_state ?ops) [] = None"
    using admission_bound [where ops = ?ops and p = True and now = 5,
            THEN conjunct2, THEN conjunct1, THEN mp, OF h]
    by simp
  have hf: "shutdown_time ?full = 0 \<and> thread_count ?full = int MAX_THREAD_COUNT"
    by (simp add: init_state_def MAX_THREAD_COUNT_def)
  note F = admission_bound [where st = ?full and p = True and now = 5
             and ws = "[\<lparr>others = [], clock = 9\<rparr>]",
             THEN conjunct2, THEN conjunct2, THEN conjunct1, THEN mp, OF hf]
  have b: "fst (wait_pass True 5 ?full) = Cond_wait False
           \<and> wait_for_server_thread 5 ?full [\<lparr>others = [], clock = 9\<rparr>] = None"
    using F by simp
  have hp: "wait_pass True 0 ?one = (Leave (Inr 1), ?one\<lparr>thread_count := 2\<rparr>) \<and> (0::int) \<le> 1"
    using pass by simp
  have c: "thread_count ?one < 100"
    using admission_bound [where st = ?one and p = True and now = 0 and i = 1
            and st' = "?one\<lparr>thread_count := 2\<rparr>",
            THEN conjunct2, THEN conjunct2, THEN conjunct2, THEN conjunct1, THEN mp, OF hp]
    by (simp add: MAX_THREAD_COUNT_def)
  have hb: "shutdown_time ?bad = 0 \<and> thread_count ?bad < int MAX_THREAD_COUNT
        \<and> (\<forall>j<MAX_THREAD_COUNT. slave_thread_id ?bad j \<noteq> 0)"
    by (simp add: init_state_def MAX_THREAD_COUNT_def)
  have d: "wait_for_server_thread 0 ?bad []
       = Some (Inl (Fatal ''No free slave_thread_id''), ?bad\<lparr>thread_count := 1\<rparr>)"
    using admission_bound [where st = ?bad and now = 0 and ws = "[]",
            THEN conjunct2, THEN conjunct2, THEN conjunct2, THEN conjunct2, THEN conjunct1,
            THEN mp, OF hb]
    by (simp add: init_state_def)
  have hg: "thread_count init_state \<le> int MAX_THREAD_COUNT
        \<and> wait_for_server_thread 0 init_state [] = Some (Inr 0, init_state\<lparr>thread_count := 1\<rparr>)"
    by (simp add: wait_for_server_thread_def wait_loop.simps [of True 0] wait_pass_def
                  scan_from.simps [of _ 0] init_state_def MAX_THREAD_COUNT_def)
  have f: "thread_count (init_state\<lparr>thread_count := 1\<rparr>) \<le> 100"
    using admission_bound [where st = init_state and now = 0 and ws = "[]" and r = "Inr 0"
            and ?st2.0 = "init_state\<lparr>thread_count := 1\<rparr>",
            THEN conjunct2, THEN conjunct2, THEN conjunct2, THEN conjunct2, THEN conjunct2,
            THEN mp, OF hg]
    by (simp add: MAX_THREAD_COUNT_def)
  have e: "shutdown_time ?full = 0" by (simp add: init_state_def)
  from a cnt r e b pass c d hg f show ?thesis by (simp add: init_state_def)
qed

subsection \<open>Release\<close>

lemma free_server_thread_waiters: "cond_waiters (free_server_thread t st) = {}"
  by (simp add: free_server_thread_def Let_def add_log_def)

lemma free_server_thread_logged:
  "logged (free_server_thread t st) =
     logged st
     @ (if thread_count st > 0 then [] else [Error ''thread_count underflow''])
     @ (if t \<noteq> 0 \<and> scan_from (\<lambda>i. slave_thread_id st i = t) 0 = None
        then [Error ''Could not find slave_thread_id''] else [])
     @ [Cond_broadcast]"
  by (auto simp: free_server_thread_def Let_def add_log_def split: option.splits)

lemma free_server_thread_slots:
  "slave_thread_id (free_server_thread t st) =
     (if t = 0 then slave_thread_id st
      else case scan_from (\<lambda>i. slave_thread_id st i = t) 0 of
             None \<Rightarrow> slave_thread_id st
           | Some k \<Rightarrow> (slave_thread_id st)(k := 0))"
  by (auto simp: free_server_thread_def Let_def add_log_def split: option.splits)

lemma free_server_thread_other:
  "master_thread_id (free_server_thread t st) = master_thread_id st"
  "shutdown_time (free_server_thread t st) = shutdown_time st"
  by (auto simp: free_server_thread_def Let_def add_log_def split: option.splits)

text \<open>
  Claim C8 (release).  \<open>_free_server_thread\<close> decrements \<open>thread_count\<close> when it is
  positive; at zero it logs "thread\_count underflow" and leaves the count at zero, so
  a count that is not negative stays so.  For a worker identity it clears the lowest
  table entry that holds the identity (so a worker that held one entry holds none
  afterwards), and logs when there is none.  It ends with the broadcast on
  \<open>thread_count_cond\<close>, after which no thread is left waiting: every waiter, and so
  at least one when there are any, has been woken.
\<close>

theorem release_effect:
  "thread_count (free_server_thread t st)
     = (if thread_count st > 0 then thread_count st - 1 else thread_count st)
   \<and> (0 \<le> thread_count st \<longrightarrow> 0 \<le> thread_count (free_server_thread t st))
   \<and> (thread_count st = 0 \<longrightarrow>
        thread_count (free_server_thread t st) = 0
        \<and> Error ''thread_count underflow'' \<in> set (logged (free_server_thread t st)))
   \<and> (t \<noteq> 0 \<and> k < MAX_THREAD_COUNT \<and> slave_thread_id st k = t
        \<and> (\<forall>j<k. slave_thread_id st j \<noteq> t) \<longrightarrow>
        slave_thread_id (free_server_thread t st) = (slave_thread_id st)(k := 0))
   \<and> (t \<noteq> 0 \<and> k < MAX_THREAD_COUNT \<and> slave_thread_id st k = t
        \<and> (\<forall>j<MAX_THREAD_COUNT. j \<noteq> k \<longrightarrow> slave_thread_id st j \<noteq> t) \<longrightarrow>
        (\<forall>j<MAX_THREAD_COUNT. slave_thread_id (free_server_thread t st) j \<noteq> t))
   \<and> (t = 0 \<longrightarrow> slave_thread_id (free_server_thread t st) = slave_thread_id st)
   \<and> cond_waiters (free_server_thread t st) = {}
   \<and> (cond_waiters st \<noteq> {} \<longrightarrow>
        (\<exists>w\<in>cond_waiters st. w \<notin> cond_waiters (free_server_thread t st)))
   \<and> (\<exists>evs. logged (free_server_thread t st) = logged st @ evs @ [Cond_broadcast])"
proof -
  have first: "slave_thread_id (free_server_thread t st) = (slave_thread_id st)(k := 0)"
    if "t \<noteq> 0" "k < MAX_THREAD_COUNT" "slave_thread_id st k = t" "\<forall>j<k. slave_thread_id st j \<noteq> t"
  proof -
    have "scan_from (\<lambda>i. slave_thread_id st i = t) 0 = Some k"
      using that by (intro scan_from_first) simp_all
    with that(1) show ?thesis by (simp add: free_server_thread_slots)
  qed
  have only: "\<forall>j<MAX_THREAD_COUNT. slave_thread_id (free_server_thread t st) j \<noteq> t"
    if "t \<noteq> 0" "k < MAX_THREAD_COUNT" "slave_thread_id st k = t"
       "\<forall>j<MAX_THREAD_COUNT. j \<noteq> k \<longrightarrow> slave_thread_id st j \<noteq> t"
  proof -
    have "\<forall>j<k. slave_thread_id st j \<noteq> t" using that(2,4) by auto
    from first [OF that(1,2,3) this] that(1,4) show ?thesis by auto
  qed
  have woken: "\<exists>w\<in>cond_waiters st. w \<notin> cond_waiters (free_server_thread t st)"
    if "cond_waiters st \<noteq> {}"
    using that by (auto simp: free_server_thread_waiters)
  have log: "\<exists>evs. logged (free_server_thread t st) = logged st @ evs @ [Cond_broadcast]"
    by (simp add: free_server_thread_logged)
  show ?thesis
    using first only woken log
    by (simp add: free_server_thread_count free_server_thread_waiters
                  free_server_thread_logged free_server_thread_slots)
qed

theorem release_effect_witness:
  "thread_count (free_server_thread 9 (init_state\<lparr>slave_thread_id := (\<lambda>_. 0)(3 := 9), thread_count := 1\<rparr>)) = 0
   \<and> slave_thread_id (free_server_thread 9 (init_state\<lparr>slave_thread_id := (\<lambda>_. 0)(3 := 9), thread_count := 1\<rparr>)) 3 = 0
   \<and> slave_thread_id (free_server_thread 9 (init_state\<lparr>slave_thread_id := (\<lambda>_. 0)(3 := 9), thread_count := 1\<rparr>)) = (\<lambda>_. 0)
   \<and> thread_count (free_server_thread 0 init_state) = 0
   \<and> Error ''thread_count underflow'' \<in> set (logged (free_server_thread 0 init_state))
   \<and> cond_waiters (init_state\<lparr>cond_waiters := {4}\<rparr>) \<noteq> {}
   \<and> (\<exists>w\<in>cond_waiters (init_state\<lparr>cond_waiters := {4}\<rparr>).
         w \<notin> cond_waiters (free_server_thread 0 (init_state\<lparr>cond_waiters := {4}\<rparr>)))"
proof -
  let ?s = "init_state\<lparr>slave_thread_id := (\<lambda>_. 0)(3 := 9), thread_count := 1\<rparr>"
  have a: "thread_count (free_server_thread 9 ?s) = 0
           \<and> slave_thread_id (free_server_thread 9 ?s) = (\<lambda>_. 0)"
    using release_effect [of 9 ?s 3]
    by (simp add: init_state_def MAX_THREAD_COUNT_def fun_upd_idem_iff)
  have b: "thread_count (free_server_thread 0 init_state) = 0
           \<and> Error ''thread_count underflow'' \<in> set (logged (free_server_thread 0 init_state))"
    using release_effect [of 0 init_state 0]
    by (simp add: init_state_def)
  have c: "\<exists>w\<in>cond_waiters (init_state\<lparr>cond_waiters := {4}\<rparr>).
         w \<notin> cond_waiters (free_server_thread 0 (init_state\<lparr>cond_waiters := {4}\<rparr>))"
    using release_effect [of 0 "init_state\<lparr>cond_waiters := {4}\<rparr>" 0]
    by (simp add: init_state_def)
  show ?thesis using a b c by (simp add: init_state_def)
qed

subsection \<open>The shutdown wake-up\<close>

lemma ex_from_Suc:
  "(\<exists>j. i \<le> j \<and> Q j) \<longleftrightarrow> Q i \<or> (\<exists>j. Suc i \<le> j \<and> Q (j::nat))"
proof
  assume "\<exists>j. i \<le> j \<and> Q j"
  then obtain j where j: "i \<le> j" "Q j" by blast
  show "Q i \<or> (\<exists>j. Suc i \<le> j \<and> Q j)"
  proof (cases "j = i")
    case True
    with j show ?thesis by simp
  next
    case False
    with j have "Suc i \<le> j" by simp
    with j show ?thesis by blast
  qed
next
  assume "Q i \<or> (\<exists>j. Suc i \<le> j \<and> Q j)"
  then show "\<exists>j. i \<le> j \<and> Q j"
    using Suc_leD by blast
qed

lemma kill_from_mem:
  "e \<in> set (kill_from st i) \<longleftrightarrow>
     (\<exists>j. i \<le> j \<and> (j < MAX_THREAD_COUNT \<and> slave_thread_id st j \<noteq> 0
            \<and> e = Pthread_kill (slave_thread_id st j)))"
proof (induction st i rule: kill_from.induct)
  case (1 st i)
  show ?case
  proof (cases "i < MAX_THREAD_COUNT")
    case False
    then show ?thesis by (auto simp: kill_from.simps [of st i])
  next
    case True
    show ?thesis
    proof (cases "slave_thread_id st i \<noteq> 0")
      case nz: True
      have "e \<in> set (kill_from st i) \<longleftrightarrow>
              e = Pthread_kill (slave_thread_id st i) \<or> e \<in> set (kill_from st (Suc i))"
        using True nz by (simp add: kill_from.simps [of st i])
      then show ?thesis
        using "1.IH"(1) [OF True nz] True nz
        by (subst ex_from_Suc) simp
    next
      case z: False
      have "e \<in> set (kill_from st i) \<longleftrightarrow> e \<in> set (kill_from st (Suc i))"
        using True z by (simp add: kill_from.simps [of st i])
      then show ?thesis
        using "1.IH"(2) [OF True] z
        by (subst ex_from_Suc) simp
    qed
  qed
qed

lemma kill_from_set:
  "set (kill_from st i) =
     {Pthread_kill (slave_thread_id st j) | j.
        i \<le> j \<and> j < MAX_THREAD_COUNT \<and> slave_thread_id st j \<noteq> 0}"
  using kill_from_mem [of _ st i] by blast

lemma kill_from_cleared:
  "(\<forall>j<MAX_THREAD_COUNT. slave_thread_id st j = 0) \<Longrightarrow> kill_from st i = []"
proof -
  assume "\<forall>j<MAX_THREAD_COUNT. slave_thread_id st j = 0"
  then have "set (kill_from st i) = {}" by (auto simp: kill_from_set)
  then show ?thesis by simp
qed

lemma rpc_mgr_wake_set:
  "set (rpc_mgr_wake st) =
     {Pthread_kill t | t. t \<noteq> 0 \<and>
        (t = master_thread_id st \<or> (\<exists>j<MAX_THREAD_COUNT. slave_thread_id st j = t))}"
  by (auto simp: rpc_mgr_wake_def kill_from_set)

text \<open>
  Claim C10 (shutdown wake-up), as amended.  \<open>rpc_mgr_wake\<close> signals exactly the
  identities that are not zero among the manager's and the table's entries; it never
  signals identity 0.  When the manager has not registered and every entry is
  cleared (as at program start) it signals nobody.  When every entry is cleared it
  signals no worker: the manager alone, if it has registered.  After a worker's
  release has cleared the one entry that held its identity, the worker is not
  signalled.
\<close>

theorem wake_signals:
  "Pthread_kill 0 \<notin> set (rpc_mgr_wake st)
   \<and> set (rpc_mgr_wake st) =
       {Pthread_kill t | t. t \<noteq> 0 \<and>
          (t = master_thread_id st \<or> (\<exists>j<MAX_THREAD_COUNT. slave_thread_id st j = t))}
   \<and> rpc_mgr_wake init_state = []
   \<and> (master_thread_id st = 0 \<and> (\<forall>j<MAX_THREAD_COUNT. slave_thread_id st j = 0) \<longrightarrow>
        rpc_mgr_wake st = [])
   \<and> ((\<forall>j<MAX_THREAD_COUNT. slave_thread_id st j = 0) \<longrightarrow>
        rpc_mgr_wake st =
          (if master_thread_id st \<noteq> 0 then [Pthread_kill (master_thread_id st)] else []))
   \<and> (t \<noteq> 0 \<and> t \<noteq> master_thread_id st \<and> k < MAX_THREAD_COUNT \<and> slave_thread_id st k = t
        \<and> (\<forall>j<MAX_THREAD_COUNT. j \<noteq> k \<longrightarrow> slave_thread_id st j \<noteq> t) \<longrightarrow>
        Pthread_kill t \<notin> set (rpc_mgr_wake (free_server_thread t st)))"
proof -
  have zero: "Pthread_kill 0 \<notin> set (rpc_mgr_wake st)"
    by (auto simp: rpc_mgr_wake_set)
  have init: "rpc_mgr_wake init_state = []"
    by (simp add: rpc_mgr_wake_def kill_from_cleared init_state_def)
  have cleared: "rpc_mgr_wake st =
          (if master_thread_id st \<noteq> 0 then [Pthread_kill (master_thread_id st)] else [])"
    if "\<forall>j<MAX_THREAD_COUNT. slave_thread_id st j = 0"
    using that by (simp add: rpc_mgr_wake_def kill_from_cleared)
  have released: "Pthread_kill t \<notin> set (rpc_mgr_wake (free_server_thread t st))"
    if h: "t \<noteq> 0" "t \<noteq> master_thread_id st" "k < MAX_THREAD_COUNT" "slave_thread_id st k = t"
       "\<forall>j<MAX_THREAD_COUNT. j \<noteq> k \<longrightarrow> slave_thread_id st j \<noteq> t"
  proof -
    have "\<forall>j<k. slave_thread_id st j \<noteq> t" using h(3,5) by auto
    then have "scan_from (\<lambda>i. slave_thread_id st i = t) 0 = Some k"
      using h by (intro scan_from_first) simp_all
    then have "slave_thread_id (free_server_thread t st) = (slave_thread_id st)(k := 0)"
      using h(1) by (simp add: free_server_thread_slots)
    then show ?thesis
      using h by (auto simp: rpc_mgr_wake_set free_server_thread_other)
  qed
  show ?thesis
    using zero init cleared released rpc_mgr_wake_set [of st] by simp
qed

theorem wake_signals_witness:
  "master_thread_id init_state = 0
   \<and> rpc_mgr_wake init_state = []
   \<and> rpc_mgr_wake (rpc_mgr_register 7 init_state) = [Pthread_kill 7]
   \<and> Pthread_kill 9 \<notin> set (rpc_mgr_wake (free_server_thread 9
        (init_state\<lparr>master_thread_id := 7, slave_thread_id := (\<lambda>_. 0)(3 := 9), thread_count := 1\<rparr>)))"
proof -
  let ?s = "init_state\<lparr>master_thread_id := 7, slave_thread_id := (\<lambda>_. 0)(3 := 9), thread_count := 1\<rparr>"
  have a: "rpc_mgr_wake init_state = []"
    using wake_signals [of init_state 0 0] by (simp add: init_state_def)
  have b: "rpc_mgr_wake (rpc_mgr_register 7 init_state) = [Pthread_kill 7]"
    using wake_signals [of "rpc_mgr_register 7 init_state" 0 0]
    by (simp add: init_state_def rpc_mgr_register_def)
  have c: "Pthread_kill 9 \<notin> set (rpc_mgr_wake (free_server_thread 9 ?s))"
    using wake_signals [of ?s 9 3]
    by (simp add: init_state_def MAX_THREAD_COUNT_def)
  show ?thesis using a b c by (simp add: init_state_def)
qed

text \<open>The claim as it was stated fails once the manager has registered: with every
  table entry cleared, the manager is still signalled.\<close>

theorem wake_all_cleared_counterexample:
  "slave_thread_id (rpc_mgr_register 7 init_state) = (\<lambda>_. 0)
   \<and> rpc_mgr_wake (rpc_mgr_register 7 init_state) = [Pthread_kill 7]"
  by (simp add: rpc_mgr_wake_def kill_from_cleared rpc_mgr_register_def init_state_def)

subsection \<open>Thread creation in the accept loop\<close>

lemma create_loop_fails_twice:
  "create 0 = Create_failed a \<Longrightarrow> create 1 = Create_failed b \<Longrightarrow>
   create_loop create i newsockfd 0 st =
     (False,
      add_log (Close_fd newsockfd)
        (add_log (Error ''pthread_create failure, aborting RPC: %m'')
           (store_slot i b
              (add_log (Usleep 1000)
                 (add_log (Error ''pthread_create failure: %m'') (store_slot i a st))))))"
  by (simp add: create_loop.simps [of create i newsockfd 0]
                create_loop.simps [of create i newsockfd "Suc 0"])

lemma create_loop_second_try:
  "create 0 = Create_failed a \<Longrightarrow> create 1 = Created t \<Longrightarrow>
   create_loop create i newsockfd 0 st =
     (True,
      store_slot i (Some t)
        (add_log (Usleep 1000)
           (add_log (Error ''pthread_create failure: %m'') (store_slot i a st))))"
  by (simp add: create_loop.simps [of create i newsockfd 0]
                create_loop.simps [of create i newsockfd "Suc 0"])

lemma store_slot_sel:
  "thread_count (store_slot i x st) = thread_count st"
  "logged (store_slot i x st) = logged st"
  "cond_waiters (store_slot i x st) = cond_waiters st"
  "(slave_thread_id (store_slot i x st))(i := v) = (slave_thread_id st)(i := v)"
  by (simp_all add: store_slot_def split: option.splits)

lemma add_log_sel:
  "thread_count (add_log e st) = thread_count st"
  "logged (add_log e st) = logged st @ [e]"
  "cond_waiters (add_log e st) = cond_waiters st"
  "slave_thread_id (add_log e st) = slave_thread_id st"
  by (simp_all add: add_log_def)

text \<open>
  Claim C3 (thread creation is retried once; a second failure drops the connection
  and releases the slot).  The code retries once after \<open>usleep(1000)\<close>, and on the
  second failure logs and closes the socket, but it leaves \<open>thread_count\<close> as the
  admission left it: \<open>_free_server_thread\<close> is not called on this path (the count is
  not decremented, nothing is broadcast, no waiter is woken), while the failed-accept
  path a few lines above calls it.  This holds whatever the two failed calls of
  \<open>pthread_create\<close> leave in the slot; the other slots are not touched.  Evaluated
  from the start state with the manager registered: after a round in which both
  attempts fail (here leaving a stale identity in the slot) the count is 1 and no
  worker exists; after a round in which \<open>accept\<close> fails the count is 0.
\<close>

theorem create_failure_keeps_count:
  "fst (rpc_mgr_body (Accepted fd host) (\<lambda>k. Create_failed (stored k)) addr i st) = None
   \<and> thread_count (snd (rpc_mgr_body (Accepted fd host) (\<lambda>k. Create_failed (stored k)) addr i st))
       = thread_count st
   \<and> logged (snd (rpc_mgr_body (Accepted fd host) (\<lambda>k. Create_failed (stored k)) addr i st))
       = logged st @
           [Error ''pthread_create failure: %m'', Usleep 1000,
            Error ''pthread_create failure, aborting RPC: %m'', Close_fd fd]
   \<and> cond_waiters (snd (rpc_mgr_body (Accepted fd host) (\<lambda>k. Create_failed (stored k)) addr i st))
       = cond_waiters st
   \<and> (slave_thread_id
         (snd (rpc_mgr_body (Accepted fd host) (\<lambda>k. Create_failed (stored k)) addr i st)))(i := 0)
       = (slave_thread_id st)(i := 0)
   \<and> slave_thread_id
        (snd (rpc_mgr_body (Accepted fd host)
                (\<lambda>k. if k = 0 then Create_failed (stored 0) else Created t) addr i st))
       = (slave_thread_id st)(i := t)
   \<and> logged
        (snd (rpc_mgr_body (Accepted fd host)
                (\<lambda>k. if k = 0 then Create_failed (stored 0) else Created t) addr i st))
       = logged st @ [Error ''pthread_create failure: %m'', Usleep 1000]
   \<and> thread_count (snd (rpc_mgr_body (Accept_error e) create addr i st))
       = (if thread_count st > 0 then thread_count st - 1 else thread_count st)
   \<and> map_option (map_sum id (\<lambda>(c, s). (c, thread_count s, slave_thread_id s 0, logged s)))
        (rpc_mgr_round 0 [] (Accepted 5 ''10.0.0.1'') (\<lambda>_. Create_failed (Some 12345)) 1
           (rpc_mgr_register 7 init_state))
       = Some (Inr (None, 1, 12345,
            [Error ''pthread_create failure: %m'', Usleep 1000,
             Error ''pthread_create failure, aborting RPC: %m'', Close_fd 5]))
   \<and> map_option (map_sum id (thread_count \<circ> snd))
        (rpc_mgr_round 0 [] (Accept_error EOTHER) (\<lambda>_. Create_failed None) 1
           (rpc_mgr_register 7 init_state))
       = Some (Inr 0)"
proof -
  have scan: "scan_from (\<lambda>i. (0::nat) = 0) 0 = Some 0"
    by (simp add: scan_from.simps [of _ 0] MAX_THREAD_COUNT_def)
  have adm: "wait_for_server_thread 0 (rpc_mgr_register 7 init_state) []
               = Some (Inr 0, (rpc_mgr_register 7 init_state)\<lparr>thread_count := 1\<rparr>)"
    using scan
    by (simp add: wait_for_server_thread_def wait_loop.simps [of True 0] wait_pass_def
                  rpc_mgr_register_def init_state_def MAX_THREAD_COUNT_def)
  have body: "rpc_mgr_body (Accepted fd host) (\<lambda>k. Create_failed (stored k)) addr i st =
     (None,
      add_log (Close_fd fd)
        (add_log (Error ''pthread_create failure, aborting RPC: %m'')
           (store_slot i (stored 1)
              (add_log (Usleep 1000)
                 (add_log (Error ''pthread_create failure: %m'') (store_slot i (stored 0) st))))))"
    for fd host addr i st stored
    by (simp add: rpc_mgr_body_def
                  create_loop_fails_twice [where a = "stored 0" and b = "stored 1"])
  have slots: "(slave_thread_id
         (snd (rpc_mgr_body (Accepted fd host) (\<lambda>k. Create_failed (stored k)) addr i st)))(i := 0)
       = (slave_thread_id st)(i := 0)"
  proof -
    have "(slave_thread_id (store_slot i (stored 1)
              (add_log (Usleep 1000)
                 (add_log (Error ''pthread_create failure: %m'') (store_slot i (stored 0) st)))))(i := 0)
          = (slave_thread_id (store_slot i (stored 0) st))(i := 0)"
      by (simp add: store_slot_sel(4) add_log_sel)
    then show ?thesis by (simp add: body add_log_sel store_slot_sel(4))
  qed
  have retry: "rpc_mgr_body (Accepted fd host)
                 (\<lambda>k. if k = 0 then Create_failed (stored 0) else Created t) addr i st
       = (Some \<lparr>conn_id = addr, conn_fd = fd, rem_host = host,
                 rem_port = 0, cluster_name = [], db_conn = 0, tres_str = []\<rparr>,
          store_slot i (Some t)
            (add_log (Usleep 1000)
               (add_log (Error ''pthread_create failure: %m'') (store_slot i (stored 0) st))))"
    by (simp add: rpc_mgr_body_def create_loop_second_try [where a = "stored 0" and t = t])
  have retry_slots: "slave_thread_id
        (snd (rpc_mgr_body (Accepted fd host)
                (\<lambda>k. if k = 0 then Create_failed (stored 0) else Created t) addr i st))
       = (slave_thread_id st)(i := t)"
  proof -
    have "slave_thread_id (store_slot i (Some t) s) = (slave_thread_id s)(i := t)" for s
      by (simp add: store_slot_def)
    then show ?thesis
      using store_slot_sel(4) [of i "stored 0" st t]
      by (simp add: retry add_log_sel)
  qed
  have retry_log: "logged
        (snd (rpc_mgr_body (Accepted fd host)
                (\<lambda>k. if k = 0 then Create_failed (stored 0) else Created t) addr i st))
       = logged st @ [Error ''pthread_create failure: %m'', Usleep 1000]"
    by (simp add: retry add_log_sel store_slot_sel)
  have acc: "thread_count (snd (rpc_mgr_body (Accept_error e) create addr i st))
       = (if thread_count st > 0 then thread_count st - 1 else thread_count st)" for e create addr i st
    by (simp add: rpc_mgr_body_def Let_def free_server_thread_count add_log_def)
  have round1: "map_option (map_sum id (\<lambda>(c, s). (c, thread_count s, slave_thread_id s 0, logged s)))
        (rpc_mgr_round 0 [] (Accepted 5 ''10.0.0.1'') (\<lambda>_. Create_failed (Some 12345)) 1
           (rpc_mgr_register 7 init_state))
       = Some (Inr (None, 1, 12345,
            [Error ''pthread_create failure: %m'', Usleep 1000,
             Error ''pthread_create failure, aborting RPC: %m'', Close_fd 5]))"
    using adm body [of 5 "''10.0.0.1''" "\<lambda>_. Some 12345" 1 0]
    by (simp add: rpc_mgr_round_def add_log_def store_slot_def rpc_mgr_register_def init_state_def)
  have round2: "map_option (map_sum id (thread_count \<circ> snd))
        (rpc_mgr_round 0 [] (Accept_error EOTHER) (\<lambda>_. Create_failed None) 1
           (rpc_mgr_register 7 init_state))
       = Some (Inr 0)"
    using adm by (simp add: rpc_mgr_round_def acc rpc_mgr_register_def init_state_def)
  show ?thesis
    using slots retry_slots retry_log round1 round2
    by (simp add: body acc add_log_sel store_slot_sel)
qed

section \<open>The connection worker: the properties\<close>

subsection \<open>Bookkeeping for the worker's variables\<close>

text \<open>Appending to the trace commutes with every other change of the worker's
  variables.\<close>

lemma trace_upd [simp]:
  "(trace evs w)\<lparr>w_stream := rs\<rparr> = trace evs (w\<lparr>w_stream := rs\<rparr>)"
  "(trace evs w)\<lparr>w_polls := ps\<rparr> = trace evs (w\<lparr>w_polls := ps\<rparr>)"
  "(trace evs w)\<lparr>w_fini := b\<rparr> = trace evs (w\<lparr>w_fini := b\<rparr>)"
  "(trace evs w)\<lparr>w_sent := k\<rparr> = trace evs (w\<lparr>w_sent := k\<rparr>)"
  "(trace evs w)\<lparr>w_buffer := bf\<rparr> = trace evs (w\<lparr>w_buffer := bf\<rparr>)"
  by (cases w; simp add: trace_def)+

lemma trace_sel [simp]:
  "w_stream (trace evs w) = w_stream w"
  "w_polls (trace evs w) = w_polls w"
  "w_fini (trace evs w) = w_fini w"
  "w_sent (trace evs w) = w_sent w"
  "w_buffer (trace evs w) = w_buffer w"
  "w_conn (trace evs w) = w_conn w"
  "w_uid (trace evs w) = w_uid w"
  "w_first (trace evs w) = w_first w"
  "w_trace (trace evs w) = w_trace w @ evs"
  by (simp_all add: trace_def)

lemma trace_trace [simp]: "trace evs' (trace evs w) = trace (evs @ evs') w"
  by (simp add: trace_def)

lemma trace_Nil [simp]: "trace [] w = w"
  by (simp add: trace_def)

text \<open>The two returns of \<open>poll\<close> of the test bench.\<close>

lemma fd_readable_pollin: "fd_readable (pollin # ps) = Some (True, [], ps)"
  by (simp add: pollin_def POLLIN_def POLLHUP_def POLLNVAL_def POLLERR_def)

lemma fd_readable_pollin_shutdown:
  "fd_readable (pollin_shutdown # ps) = Some (False, [], ps)"
  by (simp add: pollin_shutdown_def)

subsection \<open>Shutdown and the readiness wait\<close>

lemma fd_readable_True_no_shutdown:
  "fd_readable ps = Some (True, evs, ps') \<Longrightarrow>
     \<forall>p\<in>set (take (length ps - length ps') ps). p_shutdown p = 0"
proof (induction ps)
  case Nil
  then show ?case by simp
next
  case (Cons p ps)
  show ?case
  proof (cases "p_shutdown p = 0 \<and> p_rc p = - 1 \<and> (p_errno p = EINTR \<or> p_errno p = EAGAIN)")
    case True
    then have rec: "fd_readable ps = Some (True, evs, ps')"
      using Cons.prems by auto
    from fd_readable_shorter [OF rec]
    have "take (length (p # ps) - length ps') (p # ps) = p # take (length ps - length ps') ps"
      by (simp add: Suc_diff_le take_Cons')
    with Cons.IH [OF rec] True show ?thesis by simp
  next
    case False
    then have "ps' = ps \<and> p_shutdown p = 0"
      using Cons.prems by (auto split: if_splits)
    then show ?thesis by simp
  qed
qed

lemma service_loop_fini: "w_fini w \<Longrightarrow> service_loop C w = Some w"
  by (simp add: service_loop.simps)

lemma service_loop_not_readable:
  "\<not> w_fini w \<Longrightarrow> fd_readable (w_polls w) = Some (False, evs, ps) \<Longrightarrow>
     service_loop C w = Some (trace evs (w\<lparr>w_polls := ps\<rparr>))"
  by (simp add: service_loop.simps [of C w] service_iter_def)

lemma recv_msg_not_readable:
  "offset < msg_size \<Longrightarrow> fd_readable (w_polls w) = Some (False, evs, ps) \<Longrightarrow>
     recv_msg msg_size offset msg w = Some (offset, msg, trace evs (w\<lparr>w_polls := ps\<rparr>))"
  by (simp add: recv_msg.simps [of msg_size offset msg w])

lemma handle_msg_short:
  "offset \<noteq> msg_size \<Longrightarrow>
     handle_msg C msg_size offset msg w
       = w\<lparr>w_buffer := Some (Rc_msg SLURM_ERROR ''Bad offset'' 0), w_fini := True\<rparr>"
  by (auto simp: handle_msg_def)

lemma send_reply_fini: "w_fini w \<Longrightarrow> w_fini (send_reply C w)"
  by (simp add: send_reply_def trace_def Let_def)

lemma send_reply_stream: "w_stream (send_reply C w) = w_stream w"
  by (simp add: send_reply_def trace_def Let_def)

text \<open>
  Claim C9 (shutdown has priority over readability).  If \<open>shutdown_time\<close> is set when
  \<open>poll\<close> returns, \<open>_fd_readable\<close> answers "not readable" whatever \<open>poll\<close> reported
  (data ready, failure, any event bits), and logs nothing; conversely a "readable"
  answer means that no return of \<open>poll\<close> it consumed saw the flag set.  In the
  worker: at the start of a frame the loop ends at once, with the stream untouched and
  nothing processed or sent; in the middle of a payload the read loop stops without
  reading, the frame ends with the session marked to terminate, and the loop then
  returns without touching the stream again.
\<close>

theorem shutdown_beats_readable:
  "(p_shutdown p \<noteq> 0 \<longrightarrow> fd_readable (p # ps) = Some (False, [], ps))
   \<and> (fd_readable qs = Some (True, evs, qs') \<longrightarrow>
        (\<forall>q\<in>set (take (length qs - length qs') qs). p_shutdown q = 0))
   \<and> (p_shutdown p \<noteq> 0 \<and> \<not> w_fini w \<and> w_polls w = p # ps \<longrightarrow>
        service_loop C w = Some (w\<lparr>w_polls := ps\<rparr>))
   \<and> (p_shutdown p \<noteq> 0 \<and> w_polls w = p # ps \<and> offset < msg_size \<longrightarrow>
        recv_msg msg_size offset msg w = Some (offset, msg, w\<lparr>w_polls := ps\<rparr>))
   \<and> (p_shutdown p \<noteq> 0 \<and> w_polls w = p # ps \<and> 0 < msg_size \<longrightarrow>
        (\<exists>w'. service_frame C msg_size w = Some w' \<and> w_fini w' \<and> w_stream w' = w_stream w
               \<and> w_polls w' = ps \<and> service_loop C w' = Some w'))"
proof (intro conjI impI)
  show "fd_readable (p # ps) = Some (False, [], ps)" if "p_shutdown p \<noteq> 0"
    using that by simp
  show "\<forall>q\<in>set (take (length qs - length qs') qs). p_shutdown q = 0"
    if "fd_readable qs = Some (True, evs, qs')"
    using that by (rule fd_readable_True_no_shutdown)
  show "service_loop C w = Some (w\<lparr>w_polls := ps\<rparr>)"
    if "p_shutdown p \<noteq> 0 \<and> \<not> w_fini w \<and> w_polls w = p # ps"
    using that service_loop_not_readable [of w "[]" ps C] by simp
  show "recv_msg msg_size offset msg w = Some (offset, msg, w\<lparr>w_polls := ps\<rparr>)"
    if "p_shutdown p \<noteq> 0 \<and> w_polls w = p # ps \<and> offset < msg_size"
    using that recv_msg_not_readable [of offset msg_size w "[]" ps msg] by simp
  show "\<exists>w'. service_frame C msg_size w = Some w' \<and> w_fini w' \<and> w_stream w' = w_stream w
               \<and> w_polls w' = ps \<and> service_loop C w' = Some w'"
    if h: "p_shutdown p \<noteq> 0 \<and> w_polls w = p # ps \<and> 0 < msg_size"
  proof -
    let ?w1 = "w\<lparr>w_polls := ps\<rparr>"
    let ?w2 = "send_reply C (handle_msg C msg_size 0 (replicate msg_size 0) ?w1)"
    have "recv_msg msg_size 0 (replicate msg_size 0) w = Some (0, replicate msg_size 0, ?w1)"
      using h recv_msg_not_readable [of 0 msg_size w "[]" ps] by simp
    then have frame: "service_frame C msg_size w = Some ?w2"
      by (simp add: service_frame_def)
    have hm: "handle_msg C msg_size 0 (replicate msg_size 0) ?w1
                = ?w1\<lparr>w_buffer := Some (Rc_msg SLURM_ERROR ''Bad offset'' 0), w_fini := True\<rparr>"
      using h by (intro handle_msg_short) simp
    have fini: "w_fini ?w2" by (rule send_reply_fini) (simp add: hm)
    have "w_stream ?w2 = w_stream w" by (simp add: send_reply_stream hm)
    moreover have "w_polls ?w2 = ps" by (simp add: send_reply_polls hm)
    ultimately show ?thesis
      using frame fini service_loop_fini [OF fini] by simp
  qed
qed

theorem shutdown_beats_readable_witness:
  "p_shutdown pollin_shutdown \<noteq> 0
   \<and> fd_readable [pollin_shutdown] = Some (False, [], [])
   \<and> fd_readable [\<lparr>p_rc = - 1, p_errno = EOTHER, p_revents = 0, p_shutdown = 1700000000\<rparr>]
       = Some (False, [], [])
   \<and> fd_readable [pollin] = Some (True, [], [])
   \<and> p_shutdown pollin = 0
   \<and> service_loop (echo SLURM_SUCCESS SLURM_SUCCESS)
        (worker_init test_uid (test_conn 0) [pollin_shutdown] [Avail [0, 0, 0, 2, 7, 8]])
       = Some (worker_init test_uid (test_conn 0) [] [Avail [0, 0, 0, 2, 7, 8]])
   \<and> recv_msg 2 0 [0, 0] (worker_init test_uid (test_conn 0) [pollin_shutdown] [Avail [7, 8]])
       = Some (0, [0, 0], worker_init test_uid (test_conn 0) [] [Avail [7, 8]])"
proof -
  let ?p = "pollin_shutdown"
  let ?q = "\<lparr>p_rc = - 1, p_errno = EOTHER, p_revents = 0, p_shutdown = 1700000000\<rparr>"
  let ?C = "echo SLURM_SUCCESS SLURM_SUCCESS"
  let ?w = "worker_init test_uid (test_conn 0) [?p] [Avail [0, 0, 0, 2, 7, 8]]"
  let ?v = "worker_init test_uid (test_conn 0) [?p] [Avail [7, 8]]"
  note T = shutdown_beats_readable [of ?p "[]" "[pollin]" "[]" "[]" ?w ?C 0 2 "[0, 0]"]
  note U = shutdown_beats_readable [of ?q "[]" "[pollin]" "[]" "[]" ?v ?C 0 2 "[0, 0]"]
  note V = shutdown_beats_readable [of ?p "[]" "[pollin]" "[]" "[]" ?v ?C 0 2 "[0, 0]"]
  have sd: "p_shutdown ?p \<noteq> 0" by (simp add: pollin_shutdown_def)
  have a: "fd_readable [?p] = Some (False, [], [])"
    using T [THEN conjunct1] sd by simp
  have b: "fd_readable [?q] = Some (False, [], [])"
    using U [THEN conjunct1] by simp
  have r: "fd_readable [pollin] = Some (True, [], [])" by (rule fd_readable_pollin)
  have c: "p_shutdown pollin = 0"
    using T [THEN conjunct2, THEN conjunct1, THEN mp, OF r] by simp
  have d: "service_loop ?C ?w = Some (worker_init test_uid (test_conn 0) [] [Avail [0, 0, 0, 2, 7, 8]])"
    using T [THEN conjunct2, THEN conjunct2, THEN conjunct1] sd
    by (simp add: worker_init_def)
  have e: "recv_msg 2 0 [0, 0] ?v = Some (0, [0, 0], worker_init test_uid (test_conn 0) [] [Avail [7, 8]])"
    using V [THEN conjunct2, THEN conjunct2, THEN conjunct2, THEN conjunct1] sd
    by (simp add: worker_init_def)
  from sd a b r c d e show ?thesis by blast
qed

subsection \<open>The payload loop\<close>

lemma readable_Cons:
  "fd_readable [p] = Some (True, [], []) \<Longrightarrow> fd_readable (p # ps) = Some (True, [], ps)"
  by (auto split: if_splits)

lemma store_at_length:
  "offset + length data \<le> length msg \<Longrightarrow> length (store_at msg offset data) = length msg"
  by (simp add: store_at_def)

lemma store_at_Nil: "store_at msg offset [] = msg"
  by (simp add: store_at_def)

lemma store_at_append:
  assumes "offset + length c + length d \<le> length msg"
  shows "store_at (store_at msg offset c) (offset + length c) d = store_at msg offset (c @ d)"
proof -
  have "take (offset + length c) (take offset msg @ c @ drop (offset + length c) msg)
          = take offset msg @ c"
    using assms by simp
  moreover have "drop (offset + length c + length d) (take offset msg @ c @ drop (offset + length c) msg)
          = drop (offset + length c + length d) msg"
    using assms by (simp add: add.commute add.left_commute)
  ultimately show ?thesis
    by (simp add: store_at_def add.assoc)
qed

lemma store_at_whole:
  "length data = length msg \<Longrightarrow> store_at msg 0 data = data"
  by (simp add: store_at_def)

lemma recv_msg_done:
  "msg_size \<le> offset \<Longrightarrow> recv_msg msg_size offset msg w = Some (offset, msg, w)"
  by (simp add: recv_msg.simps [of msg_size offset msg w])

lemma recv_msg_chunk:
  assumes "fd_readable [p] = Some (True, [], [])" "c \<noteq> []" "offset + length c \<le> msg_size"
  shows "recv_msg msg_size offset msg (w\<lparr>w_polls := p # ps, w_stream := Avail c # rs\<rparr>)
           = recv_msg msg_size (offset + length c) (store_at msg offset c)
               (w\<lparr>w_polls := ps, w_stream := rs\<rparr>)"
proof -
  have "offset < msg_size" using assms(2,3) by (cases c) simp_all
  moreover have "read_fd (msg_size - offset) (Avail c # rs) = (int (length c), c, rs)"
    using assms(2,3) by simp
  ultimately show ?thesis
    using assms(2) readable_Cons [OF assms(1), of ps]
    by (simp add: recv_msg.simps [of msg_size offset msg "w\<lparr>w_polls := p # ps, w_stream := Avail c # rs\<rparr>"])
qed

lemma recv_msg_chunks:
  assumes "length ps = length chunks"
    and "\<forall>p\<in>set ps. fd_readable [p] = Some (True, [], [])"
    and "\<forall>c\<in>set chunks. c \<noteq> []"
    and "offset + length (concat chunks) \<le> msg_size"
    and "msg_size \<le> length msg"
  shows "recv_msg msg_size offset msg (w\<lparr>w_polls := ps @ ps', w_stream := map Avail chunks @ rs\<rparr>)
           = recv_msg msg_size (offset + length (concat chunks)) (store_at msg offset (concat chunks))
               (w\<lparr>w_polls := ps', w_stream := rs\<rparr>)"
  using assms
proof (induction chunks arbitrary: ps offset msg)
  case Nil
  then show ?case by (simp add: store_at_Nil)
next
  case (Cons c cs)
  then obtain p ps0 where ps: "ps = p # ps0" by (cases ps) auto
  have c: "c \<noteq> []" "offset + length c \<le> msg_size" "fd_readable [p] = Some (True, [], [])"
    using Cons.prems ps by auto
  have len: "length (store_at msg offset c) = length msg"
    using c Cons.prems(5) by (intro store_at_length) simp
  have "recv_msg msg_size offset msg (w\<lparr>w_polls := ps @ ps', w_stream := map Avail (c # cs) @ rs\<rparr>)
          = recv_msg msg_size (offset + length c) (store_at msg offset c)
              (w\<lparr>w_polls := ps0 @ ps', w_stream := map Avail cs @ rs\<rparr>)"
    using recv_msg_chunk [where msg = msg and w = w and ps = "ps0 @ ps'"
                             and rs = "map Avail cs @ rs", OF c(3) c(1) c(2)] ps
    by simp
  also have "\<dots> = recv_msg msg_size (offset + length c + length (concat cs))
                      (store_at (store_at msg offset c) (offset + length c) (concat cs))
                      (w\<lparr>w_polls := ps', w_stream := rs\<rparr>)"
    using Cons.prems ps len by (intro Cons.IH) (auto simp: add.assoc)
  also have "store_at (store_at msg offset c) (offset + length c) (concat cs)
               = store_at msg offset (concat (c # cs))"
    using Cons.prems(4,5) by (simp add: store_at_append)
  finally show ?case by (simp add: add.assoc)
qed

subsection \<open>The frame header\<close>

lemma case_map_option:
  "(case x of None \<Rightarrow> None | Some y \<Rightarrow> Some (f y)) = map_option f x"
  by (cases x) simp_all

lemma service_iter_header:
  assumes "fd_readable (w_polls w) = Some (True, evs, ps)"
    and "read_fd 4 (w_stream w) = (n, hdr, rs)"
  shows "service_iter C w =
     (if n = 0 then Some (True, trace evs (w\<lparr>w_polls := ps, w_stream := rs\<rparr>))
      else if n \<noteq> 4 then
        Some (True, trace (evs @ [Error ''Could not read msg_size from connection %d(%s) uid(%d)''])
                      (w\<lparr>w_polls := ps, w_stream := rs\<rparr>))
      else if unat (ntohl hdr) < 2 \<or> unat (ntohl hdr) > MAX_MSG_SIZE then
        Some (True, trace (evs @ [Error ''Invalid msg_size (%u) from connection %d(%s) uid(%d)''])
                      (w\<lparr>w_polls := ps, w_stream := rs\<rparr>))
      else map_option (Pair False)
             (service_frame C (unat (ntohl hdr)) (trace evs (w\<lparr>w_polls := ps, w_stream := rs\<rparr>))))"
  using assms
  by (simp add: service_iter_def Let_def case_map_option)

lemma service_loop_break:
  "\<not> w_fini w \<Longrightarrow> service_iter C w = Some (True, w') \<Longrightarrow> service_loop C w = Some w'"
  by (simp add: service_loop.simps [of C w])

lemma service_loop_next:
  "\<not> w_fini w \<Longrightarrow> service_iter C w = Some (False, w') \<Longrightarrow> service_loop C w = service_loop C w'"
  by (simp add: service_loop.simps [of C w])

lemma ntohl_values:
  "unat (ntohl [0, 0, 0, 0]) = 0" "unat (ntohl [0, 0, 0, 1]) = 1" "unat (ntohl [0, 0, 0, 2]) = 2"
  "unat (ntohl [1, 0, 0, 0]) = 16 * 1024 * 1024" "unat (ntohl [1, 0, 0, 1]) = 16 * 1024 * 1024 + 1"
  by simp_all

text \<open>
  Claim C5 (length bounds).  Once the four header bytes have been read, a decoded
  length below 2 or above 16 MiB ends the worker loop at once: the only thing added to
  the trace is the error line "Invalid msg\_size", the stream is left exactly where the
  header ended (no payload byte is read) and nothing is sent.  A length from 2 to
  16 MiB, both included, passes the check, and the iteration goes on to read the
  payload.
\<close>

theorem msg_size_bounds:
  "(\<not> w_fini w \<and> fd_readable (w_polls w) = Some (True, evs, ps)
      \<and> read_fd 4 (w_stream w) = (4, hdr, rs)
      \<and> (unat (ntohl hdr) < 2 \<or> unat (ntohl hdr) > 16 * 1024 * 1024) \<longrightarrow>
        service_loop C w =
          Some (trace (evs @ [Error ''Invalid msg_size (%u) from connection %d(%s) uid(%d)''])
                  (w\<lparr>w_polls := ps, w_stream := rs\<rparr>)))
   \<and> (fd_readable (w_polls w) = Some (True, evs, ps)
      \<and> read_fd 4 (w_stream w) = (4, hdr, rs)
      \<and> 2 \<le> unat (ntohl hdr) \<and> unat (ntohl hdr) \<le> 16 * 1024 * 1024 \<longrightarrow>
        service_iter C w =
          map_option (Pair False)
            (service_frame C (unat (ntohl hdr)) (trace evs (w\<lparr>w_polls := ps, w_stream := rs\<rparr>))))
   \<and> unat (ntohl [0, 0, 0, 2]) = 2
   \<and> unat (ntohl [1, 0, 0, 0]) = 16 * 1024 * 1024"
proof (intro conjI impI)
  assume h: "\<not> w_fini w \<and> fd_readable (w_polls w) = Some (True, evs, ps)
      \<and> read_fd 4 (w_stream w) = (4, hdr, rs)
      \<and> (unat (ntohl hdr) < 2 \<or> unat (ntohl hdr) > 16 * 1024 * 1024)"
  then have "service_iter C w =
      Some (True, trace (evs @ [Error ''Invalid msg_size (%u) from connection %d(%s) uid(%d)''])
                  (w\<lparr>w_polls := ps, w_stream := rs\<rparr>))"
    using service_iter_header [of w evs ps 4 hdr rs C]
    by (simp add: MAX_MSG_SIZE_def)
  with h show "service_loop C w =
          Some (trace (evs @ [Error ''Invalid msg_size (%u) from connection %d(%s) uid(%d)''])
                  (w\<lparr>w_polls := ps, w_stream := rs\<rparr>))"
    by (simp add: service_loop_break)
next
  assume "fd_readable (w_polls w) = Some (True, evs, ps)
      \<and> read_fd 4 (w_stream w) = (4, hdr, rs)
      \<and> 2 \<le> unat (ntohl hdr) \<and> unat (ntohl hdr) \<le> 16 * 1024 * 1024"
  then show "service_iter C w =
          map_option (Pair False)
            (service_frame C (unat (ntohl hdr)) (trace evs (w\<lparr>w_polls := ps, w_stream := rs\<rparr>)))"
    using service_iter_header [of w evs ps 4 hdr rs C]
    by (simp add: MAX_MSG_SIZE_def)
qed (simp_all add: ntohl_values)


theorem msg_size_bounds_witness:
  "service_loop (echo SLURM_SUCCESS SLURM_SUCCESS)
       (worker_init test_uid (test_conn 0) [pollin] [Avail [0, 0, 0, 1, 9]])
     = Some (trace [Error ''Invalid msg_size (%u) from connection %d(%s) uid(%d)'']
               ((worker_init test_uid (test_conn 0) [pollin] [Avail [0, 0, 0, 1, 9]])
                  \<lparr>w_polls := [], w_stream := [Avail [9]]\<rparr>))
   \<and> service_loop (echo SLURM_SUCCESS SLURM_SUCCESS)
       (worker_init test_uid (test_conn 0) [pollin] [Avail [1, 0, 0, 1], Avail [9, 9, 9]])
     = Some (trace [Error ''Invalid msg_size (%u) from connection %d(%s) uid(%d)'']
               ((worker_init test_uid (test_conn 0) [pollin] [Avail [1, 0, 0, 1], Avail [9, 9, 9]])
                  \<lparr>w_polls := [], w_stream := [Avail [9, 9, 9]]\<rparr>))
   \<and> service_iter (echo SLURM_SUCCESS SLURM_SUCCESS)
       (worker_init test_uid (test_conn 0) [pollin, pollin] [Avail [0, 0, 0, 2], Avail [7, 8]])
     = Some (False, trace [Proc_req [7, 8] True, Send_msg (Some (Proc_buf [7, 8]))]
               ((worker_init test_uid (test_conn 0) [pollin, pollin] [Avail [0, 0, 0, 2], Avail [7, 8]])
                  \<lparr>w_polls := [], w_stream := [], w_first := False,
                   w_buffer := Some (Proc_buf [7, 8]), w_sent := 1\<rparr>))
   \<and> service_iter (echo SLURM_SUCCESS SLURM_SUCCESS)
       (worker_init test_uid (test_conn 0) [pollin] [Avail [1, 0, 0, 0]])
     = map_option (Pair False)
         (service_frame (echo SLURM_SUCCESS SLURM_SUCCESS) (16 * 1024 * 1024)
            ((worker_init test_uid (test_conn 0) [pollin] [Avail [1, 0, 0, 0]])\<lparr>w_polls := [], w_stream := []\<rparr>))"
proof -
  let ?C = "echo SLURM_SUCCESS SLURM_SUCCESS"
  let ?w1 = "worker_init test_uid (test_conn 0) [pollin] [Avail [0, 0, 0, 1, 9]]"
  let ?w2 = "worker_init test_uid (test_conn 0) [pollin] [Avail [1, 0, 0, 1], Avail [9, 9, 9]]"
  let ?w3 = "worker_init test_uid (test_conn 0) [pollin, pollin] [Avail [0, 0, 0, 2], Avail [7, 8]]"
  let ?w4 = "worker_init test_uid (test_conn 0) [pollin] [Avail [1, 0, 0, 0]]"
  have h1: "\<not> w_fini ?w1 \<and> fd_readable (w_polls ?w1) = Some (True, [], [])
      \<and> read_fd 4 (w_stream ?w1) = (4, [0, 0, 0, 1], [Avail [9]])
      \<and> (unat (ntohl [0, 0, 0, 1]) < 2 \<or> unat (ntohl [0, 0, 0, 1]) > 16 * 1024 * 1024)"
    by (simp add: worker_init_def fd_readable_pollin del: fd_readable.simps)
  have h2: "\<not> w_fini ?w2 \<and> fd_readable (w_polls ?w2) = Some (True, [], [])
      \<and> read_fd 4 (w_stream ?w2) = (4, [1, 0, 0, 1], [Avail [9, 9, 9]])
      \<and> (unat (ntohl [1, 0, 0, 1]) < 2 \<or> unat (ntohl [1, 0, 0, 1]) > 16 * 1024 * 1024)"
    by (simp add: worker_init_def fd_readable_pollin del: fd_readable.simps)
  have h3: "fd_readable (w_polls ?w3) = Some (True, [], [pollin])
      \<and> read_fd 4 (w_stream ?w3) = (4, [0, 0, 0, 2], [Avail [7, 8]])
      \<and> 2 \<le> unat (ntohl [0, 0, 0, 2]) \<and> unat (ntohl [0, 0, 0, 2]) \<le> 16 * 1024 * 1024"
    by (simp add: worker_init_def fd_readable_pollin del: fd_readable.simps)
  have h4: "fd_readable (w_polls ?w4) = Some (True, [], [])
      \<and> read_fd 4 (w_stream ?w4) = (4, [1, 0, 0, 0], [])
      \<and> 2 \<le> unat (ntohl [1, 0, 0, 0]) \<and> unat (ntohl [1, 0, 0, 0]) \<le> 16 * 1024 * 1024"
    by (simp add: worker_init_def fd_readable_pollin del: fd_readable.simps)
  have a: "service_loop ?C ?w1
     = Some (trace [Error ''Invalid msg_size (%u) from connection %d(%s) uid(%d)'']
               (?w1\<lparr>w_polls := [], w_stream := [Avail [9]]\<rparr>))"
    using msg_size_bounds [where w = ?w1 and C = ?C, THEN conjunct1, THEN mp, OF h1] by simp
  have b: "service_loop ?C ?w2
     = Some (trace [Error ''Invalid msg_size (%u) from connection %d(%s) uid(%d)'']
               (?w2\<lparr>w_polls := [], w_stream := [Avail [9, 9, 9]]\<rparr>))"
    using msg_size_bounds [where w = ?w2 and C = ?C, THEN conjunct1, THEN mp, OF h2] by simp
  have frame: "service_frame ?C 2 (?w3\<lparr>w_polls := [pollin], w_stream := [Avail [7, 8]]\<rparr>)
     = Some (trace [Proc_req [7, 8] True, Send_msg (Some (Proc_buf [7, 8]))]
               (?w3\<lparr>w_polls := [], w_stream := [], w_first := False,
                   w_buffer := Some (Proc_buf [7, 8]), w_sent := 1\<rparr>))"
    using recv_msg_chunk [where p = pollin and c = "[7, 8]" and offset = 0 and msg_size = 2
                          and msg = "[0, 0]" and w = ?w3 and ps = "[]" and rs = "[]"]
    by (simp add: service_frame_def fd_readable_pollin recv_msg_done store_at_def
                  handle_msg_def send_reply_def echo_def worker_init_def numeral_2_eq_2
             del: fd_readable.simps)
  have c: "service_iter ?C ?w3
     = Some (False, trace [Proc_req [7, 8] True, Send_msg (Some (Proc_buf [7, 8]))]
               (?w3\<lparr>w_polls := [], w_stream := [], w_first := False,
                   w_buffer := Some (Proc_buf [7, 8]), w_sent := 1\<rparr>))"
    using msg_size_bounds [where w = ?w3 and C = ?C, THEN conjunct2, THEN conjunct1, THEN mp, OF h3]
          frame
    by (simp add: ntohl_values)
  have d: "service_iter ?C ?w4
     = map_option (Pair False)
         (service_frame ?C (16 * 1024 * 1024) (?w4\<lparr>w_polls := [], w_stream := []\<rparr>))"
    using msg_size_bounds [where w = ?w4 and C = ?C, THEN conjunct2, THEN conjunct1, THEN mp, OF h4]
    by (simp add: ntohl_values)
  from a b c d show ?thesis by blast
qed

lemma read_fd_bound:
  "read_fd n s = (k, d, rs) \<Longrightarrow> length d \<le> n \<and> k \<le> int n"
  by (cases "(n, s)" rule: read_fd.cases) (auto split: if_splits)

lemma worker_same_stream: "w_stream w = rs \<Longrightarrow> w\<lparr>w_stream := rs\<rparr> = w"
  by (cases w) simp

text \<open>
  Claim C4 (the header read), as amended.  The header is read with one \<open>read\<close> that
  asks for 4 bytes and never gets more.  If the stream is closed with no header byte
  pending (\<open>read\<close> returns 0), the worker loop ends without logging and without
  sending.  If some but fewer than 4 bytes are returned (the stream closed, or merely
  paused, inside the header) or \<open>read\<close> fails, the loop also ends without sending,
  but the error "Could not read msg\_size" is logged.
\<close>

theorem header_read:
  "(read_fd 4 s = (n, hdr, rs) \<longrightarrow> length hdr \<le> 4 \<and> n \<le> 4)
   \<and> (\<not> w_fini w \<and> fd_readable (w_polls w) = Some (True, evs, ps)
        \<and> (w_stream w = [] \<or> (\<exists>rs'. w_stream w = Avail [] # rs')) \<longrightarrow>
        service_loop C w = Some (trace evs (w\<lparr>w_polls := ps\<rparr>)))
   \<and> (\<not> w_fini w \<and> fd_readable (w_polls w) = Some (True, evs, ps)
        \<and> w_stream w = Avail bs # rs \<and> 0 < length bs \<and> length bs < 4 \<longrightarrow>
        service_loop C w =
          Some (trace (evs @ [Error ''Could not read msg_size from connection %d(%s) uid(%d)''])
                  (w\<lparr>w_polls := ps, w_stream := rs\<rparr>)))
   \<and> (\<not> w_fini w \<and> fd_readable (w_polls w) = Some (True, evs, ps)
        \<and> w_stream w = Rd_error # rs \<longrightarrow>
        service_loop C w =
          Some (trace (evs @ [Error ''Could not read msg_size from connection %d(%s) uid(%d)''])
                  (w\<lparr>w_polls := ps, w_stream := rs\<rparr>)))"
proof (intro conjI impI)
  assume "read_fd 4 s = (n, hdr, rs)"
  from read_fd_bound [OF this] show "length hdr \<le> 4" and "n \<le> 4" by simp_all
next
  assume h: "\<not> w_fini w \<and> fd_readable (w_polls w) = Some (True, evs, ps)
        \<and> (w_stream w = [] \<or> (\<exists>rs'. w_stream w = Avail [] # rs'))"
  then have rd: "read_fd 4 (w_stream w) = (0, [], w_stream w)" by auto
  have "service_iter C w = Some (True, trace evs (w\<lparr>w_polls := ps, w_stream := w_stream w\<rparr>))"
    using h service_iter_header [OF _ rd, of evs ps C] by simp
  moreover have "w\<lparr>w_polls := ps, w_stream := w_stream w\<rparr> = w\<lparr>w_polls := ps\<rparr>"
    by (rule worker_same_stream) simp
  ultimately show "service_loop C w = Some (trace evs (w\<lparr>w_polls := ps\<rparr>))"
    using h by (simp add: service_loop_break)
next
  assume h: "\<not> w_fini w \<and> fd_readable (w_polls w) = Some (True, evs, ps)
        \<and> w_stream w = Avail bs # rs \<and> 0 < length bs \<and> length bs < 4"
  then have rd: "read_fd 4 (w_stream w) = (int (length bs), bs, rs)" by auto
  have "service_iter C w =
      Some (True, trace (evs @ [Error ''Could not read msg_size from connection %d(%s) uid(%d)''])
                    (w\<lparr>w_polls := ps, w_stream := rs\<rparr>))"
    using h service_iter_header [OF _ rd, of evs ps C] by simp
  with h show "service_loop C w =
          Some (trace (evs @ [Error ''Could not read msg_size from connection %d(%s) uid(%d)''])
                  (w\<lparr>w_polls := ps, w_stream := rs\<rparr>))"
    by (simp add: service_loop_break)
next
  assume h: "\<not> w_fini w \<and> fd_readable (w_polls w) = Some (True, evs, ps)
        \<and> w_stream w = Rd_error # rs"
  then have rd: "read_fd 4 (w_stream w) = (- 1, [], rs)" by auto
  have "service_iter C w =
      Some (True, trace (evs @ [Error ''Could not read msg_size from connection %d(%s) uid(%d)''])
                    (w\<lparr>w_polls := ps, w_stream := rs\<rparr>))"
    using h service_iter_header [OF _ rd, of evs ps C] by simp
  with h show "service_loop C w =
          Some (trace (evs @ [Error ''Could not read msg_size from connection %d(%s) uid(%d)''])
                  (w\<lparr>w_polls := ps, w_stream := rs\<rparr>))"
    by (simp add: service_loop_break)
qed

theorem header_read_witness:
  "service_loop (echo SLURM_SUCCESS SLURM_SUCCESS) (worker_init test_uid (test_conn 0) [pollin] [])
     = Some (worker_init test_uid (test_conn 0) [] [])
   \<and> service_loop (echo SLURM_SUCCESS SLURM_SUCCESS)
        (worker_init test_uid (test_conn 0) [pollin] [Avail [0, 0, 0], Avail []])
     = Some (trace [Error ''Could not read msg_size from connection %d(%s) uid(%d)'']
               (worker_init test_uid (test_conn 0) [] [Avail []]))
   \<and> service_loop (echo SLURM_SUCCESS SLURM_SUCCESS)
        (worker_init test_uid (test_conn 0) [pollin] [Rd_error])
     = Some (trace [Error ''Could not read msg_size from connection %d(%s) uid(%d)'']
               (worker_init test_uid (test_conn 0) [] []))"
proof -
  let ?C = "echo SLURM_SUCCESS SLURM_SUCCESS"
  let ?w1 = "worker_init test_uid (test_conn 0) [pollin] []"
  let ?w2 = "worker_init test_uid (test_conn 0) [pollin] [Avail [0, 0, 0], Avail []]"
  let ?w3 = "worker_init test_uid (test_conn 0) [pollin] [Rd_error]"
  have h1: "\<not> w_fini ?w1 \<and> fd_readable (w_polls ?w1) = Some (True, [], [])
        \<and> (w_stream ?w1 = [] \<or> (\<exists>rs'. w_stream ?w1 = Avail [] # rs'))"
    by (simp add: worker_init_def fd_readable_pollin del: fd_readable.simps)
  have h2: "\<not> w_fini ?w2 \<and> fd_readable (w_polls ?w2) = Some (True, [], [])
        \<and> w_stream ?w2 = Avail [0, 0, 0] # [Avail []] \<and> 0 < length [0 :: byte, 0, 0]
        \<and> length [0 :: byte, 0, 0] < 4"
    by (simp add: worker_init_def fd_readable_pollin del: fd_readable.simps)
  have h3: "\<not> w_fini ?w3 \<and> fd_readable (w_polls ?w3) = Some (True, [], [])
        \<and> w_stream ?w3 = Rd_error # []"
    by (simp add: worker_init_def fd_readable_pollin del: fd_readable.simps)
  have a: "service_loop ?C ?w1 = Some (worker_init test_uid (test_conn 0) [] [])"
    using header_read [where w = ?w1 and C = ?C, THEN conjunct2, THEN conjunct1, THEN mp, OF h1]
    by (simp add: worker_init_def)
  have b: "service_loop ?C ?w2
     = Some (trace [Error ''Could not read msg_size from connection %d(%s) uid(%d)'']
               (worker_init test_uid (test_conn 0) [] [Avail []]))"
    using header_read [where w = ?w2 and C = ?C, THEN conjunct2, THEN conjunct2, THEN conjunct1,
                        THEN mp, OF h2]
    by (simp add: worker_init_def)
  have c: "service_loop ?C ?w3
     = Some (trace [Error ''Could not read msg_size from connection %d(%s) uid(%d)'']
               (worker_init test_uid (test_conn 0) [] []))"
    using header_read [where w = ?w3 and C = ?C, THEN conjunct2, THEN conjunct2, THEN conjunct2,
                        THEN mp, OF h3]
    by (simp add: worker_init_def)
  from a b c show ?thesis by blast
qed

text \<open>The claim as it was stated fails when the stream closes inside the header: two
  header bytes arrive, then the end of the stream.  The worker stops with the error
  logged; this is not the silent stop of a closed connection.\<close>

theorem header_partial_counterexample:
  "service_loop (echo SLURM_SUCCESS SLURM_SUCCESS)
        (worker_init test_uid (test_conn 0) [pollin] [Avail [0, 0], Avail []])
     = Some (trace [Error ''Could not read msg_size from connection %d(%s) uid(%d)'']
               (worker_init test_uid (test_conn 0) [] [Avail []]))
   \<and> service_loop (echo SLURM_SUCCESS SLURM_SUCCESS) (worker_init test_uid (test_conn 0) [pollin] [Avail []])
     = Some (worker_init test_uid (test_conn 0) [] [Avail []])"
proof -
  let ?C = "echo SLURM_SUCCESS SLURM_SUCCESS"
  let ?w = "worker_init test_uid (test_conn 0) [pollin] [Avail [0, 0], Avail []]"
  let ?v = "worker_init test_uid (test_conn 0) [pollin] [Avail []]"
  have "service_iter ?C ?w
          = Some (True, trace [Error ''Could not read msg_size from connection %d(%s) uid(%d)'']
                          (worker_init test_uid (test_conn 0) [] [Avail []]))"
    by (simp add: service_iter_def worker_init_def fd_readable_pollin del: fd_readable.simps)
  moreover have "service_iter ?C ?v = Some (True, worker_init test_uid (test_conn 0) [] [Avail []])"
    by (simp add: service_iter_def worker_init_def fd_readable_pollin del: fd_readable.simps)
  ultimately show ?thesis
    by (simp add: service_loop_break worker_init_def)
qed

subsection \<open>Dispatch and response\<close>

lemma send_reply_trace:
  "w_trace (send_reply C w) =
     w_trace w @ Send_msg (w_buffer w)
       # (if send_msg C (w_sent w) (w_buffer w) \<noteq> SLURM_SUCCESS \<and> rem_port (w_conn w) \<noteq> 0
          then [Debug ''Problem sending response to connection %d(%s) uid(%d)''] else [])"
  by (simp add: send_reply_def Let_def)

lemma send_reply_fini_eq:
  "w_fini (send_reply C w) = (w_fini w \<or> send_msg C (w_sent w) (w_buffer w) \<noteq> SLURM_SUCCESS)"
  by (simp add: send_reply_def Let_def)

lemma handle_msg_whole:
  assumes "proc_req C (w_conn w) msg (w_first w) (w_buffer w) (w_uid w) = (rc, buffer, uid, conn)"
  shows "handle_msg C n n msg w =
           trace (Proc_req msg (w_first w)
                  # (if rc \<noteq> SLURM_SUCCESS \<and> rc \<noteq> ACCOUNTING_FIRST_REG
                     then [Error ''Processing last message from connection %d(%s) uid(%d)'']
                     else []))
             (w\<lparr>w_conn := conn, w_buffer := buffer, w_uid := uid, w_first := False,
                w_fini := (w_fini w \<or> (rc \<noteq> SLURM_SUCCESS \<and> rc \<noteq> ACCOUNTING_FIRST_REG
                            \<and> (rc = ESLURM_ACCESS_DENIED \<or> rc = SLURM_PROTOCOL_VERSION_ERROR)))\<rparr>)"
  using assms by (cases w) (auto simp: handle_msg_def Let_def trace_def)

lemma handle_msg_whole_trace:
  "\<exists>evs. w_trace (handle_msg C n n msg w) = w_trace w @ Proc_req msg (w_first w) # evs"
proof -
  obtain rc buffer uid conn where
    "proc_req C (w_conn w) msg (w_first w) (w_buffer w) (w_uid w) = (rc, buffer, uid, conn)"
    by (cases "proc_req C (w_conn w) msg (w_first w) (w_buffer w) (w_uid w)")
  from handle_msg_whole [OF this] show ?thesis by simp
qed

lemma recv_msg_short:
  assumes "offset < msg_size" "fd_readable (w_polls w) = Some (ok, evs, ps)"
    and "read_fd (msg_size - offset) (w_stream w) = (n, d, rs)" "ok \<longrightarrow> n \<le> 0"
  shows "recv_msg msg_size offset msg w =
           Some (offset, msg,
                 trace (evs @ (if ok then [Error ''read(%d): %m''] else []))
                   (w\<lparr>w_polls := ps, w_stream := (if ok then rs else w_stream w)\<rparr>))"
proof (cases ok)
  case True
  with assms show ?thesis
    by (simp add: recv_msg.simps [of msg_size offset msg w])
next
  case False
  have "w\<lparr>w_polls := ps, w_stream := w_stream w\<rparr> = w\<lparr>w_polls := ps\<rparr>"
    by (rule worker_same_stream) simp
  with False assms show ?thesis
    by (simp add: recv_msg.simps [of msg_size offset msg w])
qed

lemma recv_msg_chunk_split:
  assumes "fd_readable [p] = Some (True, [], [])" "offset < msg_size" "msg_size - offset < length c"
  shows "recv_msg msg_size offset msg (w\<lparr>w_polls := p # ps, w_stream := Avail c # rs\<rparr>)
           = Some (msg_size, store_at msg offset (take (msg_size - offset) c),
                   w\<lparr>w_polls := ps, w_stream := Avail (drop (msg_size - offset) c) # rs\<rparr>)"
proof -
  have c: "c \<noteq> []" using assms(3) by auto
  have "read_fd (msg_size - offset) (Avail c # rs)
          = (int (msg_size - offset), take (msg_size - offset) c, Avail (drop (msg_size - offset) c) # rs)"
    using assms(3) c by simp
  then show ?thesis
    using assms(2) readable_Cons [OF assms(1), of ps]
    by (simp add: recv_msg.simps [of msg_size offset msg "w\<lparr>w_polls := p # ps, w_stream := Avail c # rs\<rparr>"]
                  recv_msg_done)
qed

text \<open>
  Claim C6 (exact-length payload read).  Let the payload of a frame of length \<open>L\<close>
  arrive in any number of non-empty chunks, each announced by a readable \<open>poll\<close>.
  Then the read loop ends with \<open>offset = L\<close> and \<open>msg\<close> equal to the concatenation of
  the chunks, and the request processor is called with exactly these bytes; when the
  last chunk also carries bytes of the next frame, the loop takes only what the
  payload lacks and leaves the rest in the stream.  If
  instead fewer than \<open>L\<close> bytes have arrived when \<open>_fd_readable\<close> answers "not
  readable", or \<open>read\<close> returns 0 (end of stream) or -1 (error), the loop stops short:
  the request processor is not called, the response "Bad offset" with status
  \<open>SLURM_ERROR\<close> is sent, and the session is marked to terminate, so the worker loop
  ends there.
\<close>

theorem payload_reassembly:
  "(length ps = length chunks \<and> (\<forall>p\<in>set ps. fd_readable [p] = Some (True, [], []))
      \<and> (\<forall>c\<in>set chunks. c \<noteq> []) \<and> length (concat chunks) = L \<longrightarrow>
        recv_msg L 0 (replicate L 0) (w\<lparr>w_polls := ps @ ps', w_stream := map Avail chunks @ rs\<rparr>)
          = Some (L, concat chunks, w\<lparr>w_polls := ps', w_stream := rs\<rparr>)
        \<and> service_frame C L (w\<lparr>w_polls := ps @ ps', w_stream := map Avail chunks @ rs\<rparr>)
          = Some (send_reply C (handle_msg C L L (concat chunks) (w\<lparr>w_polls := ps', w_stream := rs\<rparr>)))
        \<and> (\<exists>evs'. w_trace (handle_msg C L L (concat chunks) (w\<lparr>w_polls := ps', w_stream := rs\<rparr>))
                     = w_trace w @ Proc_req (concat chunks) (w_first w) # evs'))
   \<and> (length ps = length chunks \<and> (\<forall>p\<in>set ps. fd_readable [p] = Some (True, [], []))
      \<and> (\<forall>c\<in>set chunks. c \<noteq> []) \<and> length (concat chunks) < L
      \<and> fd_readable ps' = Some (ok, evs, ps'')
      \<and> read_fd (L - length (concat chunks)) rs = (n, d, rs') \<and> (ok \<longrightarrow> n \<le> 0) \<longrightarrow>
        (\<exists>w'. service_frame C L (w\<lparr>w_polls := ps @ ps', w_stream := map Avail chunks @ rs\<rparr>) = Some w'
           \<and> w_fini w'
           \<and> w_buffer w' = Some (Rc_msg SLURM_ERROR ''Bad offset'' 0)
           \<and> w_trace w' =
               w_trace w @ evs @ (if ok then [Error ''read(%d): %m''] else [])
               @ Send_msg (Some (Rc_msg SLURM_ERROR ''Bad offset'' 0))
               # (if send_msg C (w_sent w) (Some (Rc_msg SLURM_ERROR ''Bad offset'' 0)) \<noteq> SLURM_SUCCESS
                     \<and> rem_port (w_conn w) \<noteq> 0
                  then [Debug ''Problem sending response to connection %d(%s) uid(%d)''] else [])
           \<and> service_loop C w' = Some w'))
   \<and> (length ps = length chunks \<and> (\<forall>p\<in>set ps. fd_readable [p] = Some (True, [], []))
      \<and> (\<forall>c\<in>set chunks. c \<noteq> []) \<and> fd_readable [p] = Some (True, [], [])
      \<and> length (concat chunks) < L \<and> L - length (concat chunks) < length c \<longrightarrow>
        recv_msg L 0 (replicate L 0)
            (w\<lparr>w_polls := ps @ p # ps', w_stream := map Avail chunks @ Avail c # rs\<rparr>)
          = Some (L, concat chunks @ take (L - length (concat chunks)) c,
                  w\<lparr>w_polls := ps',
                    w_stream := Avail (drop (L - length (concat chunks)) c) # rs\<rparr>))"
proof (intro conjI impI)
  assume h: "length ps = length chunks \<and> (\<forall>p\<in>set ps. fd_readable [p] = Some (True, [], []))
      \<and> (\<forall>c\<in>set chunks. c \<noteq> []) \<and> length (concat chunks) = L"
  let ?w0 = "w\<lparr>w_polls := ps @ ps', w_stream := map Avail chunks @ rs\<rparr>"
  let ?w1 = "w\<lparr>w_polls := ps', w_stream := rs\<rparr>"
  have "recv_msg L 0 (replicate L 0) ?w0
          = recv_msg L (0 + length (concat chunks)) (store_at (replicate L 0) 0 (concat chunks)) ?w1"
    using h by (intro recv_msg_chunks) simp_all
  also have "\<dots> = Some (L, concat chunks, ?w1)"
    using h by (simp add: recv_msg_done store_at_whole)
  finally show recv: "recv_msg L 0 (replicate L 0) ?w0 = Some (L, concat chunks, ?w1)" .
  then show "service_frame C L ?w0 = Some (send_reply C (handle_msg C L L (concat chunks) ?w1))"
    by (simp add: service_frame_def)
  show "\<exists>evs'. w_trace (handle_msg C L L (concat chunks) ?w1)
                     = w_trace w @ Proc_req (concat chunks) (w_first w) # evs'"
    using handle_msg_whole_trace [of C L "concat chunks" ?w1] by simp
next
  assume h: "length ps = length chunks \<and> (\<forall>p\<in>set ps. fd_readable [p] = Some (True, [], []))
      \<and> (\<forall>c\<in>set chunks. c \<noteq> []) \<and> length (concat chunks) < L
      \<and> fd_readable ps' = Some (ok, evs, ps'')
      \<and> read_fd (L - length (concat chunks)) rs = (n, d, rs') \<and> (ok \<longrightarrow> n \<le> 0)"
  let ?w0 = "w\<lparr>w_polls := ps @ ps', w_stream := map Avail chunks @ rs\<rparr>"
  let ?w1 = "w\<lparr>w_polls := ps', w_stream := rs\<rparr>"
  let ?k = "length (concat chunks)"
  let ?msg = "store_at (replicate L 0) 0 (concat chunks)"
  let ?w2 = "trace (evs @ (if ok then [Error ''read(%d): %m''] else []))
               (?w1\<lparr>w_polls := ps'', w_stream := (if ok then rs' else w_stream ?w1)\<rparr>)"
  let ?rc = "Rc_msg SLURM_ERROR ''Bad offset'' 0"
  let ?w3 = "send_reply C (?w2\<lparr>w_buffer := Some ?rc, w_fini := True\<rparr>)"
  have "recv_msg L 0 (replicate L 0) ?w0 = recv_msg L (0 + ?k) ?msg ?w1"
    using h by (intro recv_msg_chunks) simp_all
  also have "\<dots> = Some (?k, ?msg, ?w2)"
    using h recv_msg_short [of ?k L ?w1 ok evs ps'' n d rs' ?msg] by simp
  finally have "service_frame C L ?w0 = Some (send_reply C (handle_msg C L ?k ?msg ?w2))"
    by (simp add: service_frame_def)
  moreover have "handle_msg C L ?k ?msg ?w2 = ?w2\<lparr>w_buffer := Some ?rc, w_fini := True\<rparr>"
    using h by (intro handle_msg_short) simp
  ultimately have frame: "service_frame C L ?w0 = Some ?w3" by simp
  have fini: "w_fini ?w3" by (simp add: send_reply_fini_eq)
  have buf: "w_buffer ?w3 = Some ?rc" by (simp add: send_reply_def Let_def)
  have tr: "w_trace ?w3 =
               w_trace w @ evs @ (if ok then [Error ''read(%d): %m''] else [])
               @ Send_msg (Some ?rc)
               # (if send_msg C (w_sent w) (Some ?rc) \<noteq> SLURM_SUCCESS \<and> rem_port (w_conn w) \<noteq> 0
                  then [Debug ''Problem sending response to connection %d(%s) uid(%d)''] else [])"
    by (simp add: send_reply_trace)
  from frame fini buf tr service_loop_fini [OF fini, of C]
  show "\<exists>w'. service_frame C L ?w0 = Some w'
           \<and> w_fini w'
           \<and> w_buffer w' = Some ?rc
           \<and> w_trace w' =
               w_trace w @ evs @ (if ok then [Error ''read(%d): %m''] else [])
               @ Send_msg (Some ?rc)
               # (if send_msg C (w_sent w) (Some ?rc) \<noteq> SLURM_SUCCESS \<and> rem_port (w_conn w) \<noteq> 0
                  then [Debug ''Problem sending response to connection %d(%s) uid(%d)''] else [])
           \<and> service_loop C w' = Some w'"
    by blast
next
  assume h: "length ps = length chunks \<and> (\<forall>p\<in>set ps. fd_readable [p] = Some (True, [], []))
      \<and> (\<forall>c\<in>set chunks. c \<noteq> []) \<and> fd_readable [p] = Some (True, [], [])
      \<and> length (concat chunks) < L \<and> L - length (concat chunks) < length c"
  let ?k = "length (concat chunks)"
  let ?msg = "store_at (replicate L 0) 0 (concat chunks)"
  let ?w0 = "w\<lparr>w_polls := ps @ p # ps', w_stream := map Avail chunks @ Avail c # rs\<rparr>"
  let ?w1 = "w\<lparr>w_polls := p # ps', w_stream := Avail c # rs\<rparr>"
  let ?w2 = "w\<lparr>w_polls := ps', w_stream := Avail (drop (L - ?k) c) # rs\<rparr>"
  have "recv_msg L 0 (replicate L 0) ?w0 = recv_msg L (0 + ?k) ?msg ?w1"
    using h by (intro recv_msg_chunks) simp_all
  also have "\<dots> = Some (L, store_at ?msg ?k (take (L - ?k) c), ?w2)"
    using h recv_msg_chunk_split [where p = p and offset = ?k and msg_size = L and c = c
                                  and msg = ?msg and w = w and ps = ps' and rs = rs]
    by simp
  also have "store_at ?msg ?k (take (L - ?k) c) = concat chunks @ take (L - ?k) c"
  proof -
    have len: "length (take (L - ?k) c) = L - ?k" using h by simp
    have "store_at ?msg (0 + ?k) (take (L - ?k) c)
            = store_at (replicate L 0) 0 (concat chunks @ take (L - ?k) c)"
      using h len by (intro store_at_append) simp
    also have "\<dots> = concat chunks @ take (L - ?k) c"
      using h len by (intro store_at_whole) simp
    finally show ?thesis by simp
  qed
  finally show "recv_msg L 0 (replicate L 0) ?w0
          = Some (L, concat chunks @ take (L - ?k) c, ?w2)" .
qed


theorem payload_reassembly_witness:
  "recv_msg 3 0 [0, 0, 0]
       (worker_init test_uid (test_conn 0) [pollin, pollin, pollin] [Avail [7], Avail [8], Avail [9]])
     = Some (3, [7, 8, 9], worker_init test_uid (test_conn 0) [] [])
   \<and> map_option w_trace
       (service_frame (echo SLURM_SUCCESS SLURM_SUCCESS) 3
          (worker_init test_uid (test_conn 0) [pollin, pollin, pollin] [Avail [7], Avail [8], Avail [9]]))
     = Some [Proc_req [7, 8, 9] True, Send_msg (Some (Proc_buf [7, 8, 9]))]
   \<and> (\<exists>w'. service_frame (echo SLURM_SUCCESS SLURM_SUCCESS) 3
               (worker_init test_uid (test_conn 0) [pollin, pollin] [Avail [7], Avail []]) = Some w'
          \<and> w_fini w'
          \<and> w_trace w' = [Error ''read(%d): %m'', Send_msg (Some (Rc_msg SLURM_ERROR ''Bad offset'' 0))])
   \<and> (\<exists>w'. service_frame (echo SLURM_SUCCESS SLURM_SUCCESS) 3
               (worker_init test_uid (test_conn 0) [pollin, pollin_shutdown] [Avail [7], Avail [8, 9]]) = Some w'
          \<and> w_fini w'
          \<and> w_trace w' = [Send_msg (Some (Rc_msg SLURM_ERROR ''Bad offset'' 0))])
   \<and> recv_msg 3 0 [0, 0, 0]
       (worker_init test_uid (test_conn 0) [pollin, pollin] [Avail [7], Avail [8, 9, 0, 0, 0, 2]])
     = Some (3, [7, 8, 9], worker_init test_uid (test_conn 0) [] [Avail [0, 0, 0, 2]])"
proof -
  let ?C = "echo SLURM_SUCCESS SLURM_SUCCESS"
  let ?w = "worker_init test_uid (test_conn 0) [] []"
  let ?c3 = "[[7], [8], [9]] :: byte list list"
  let ?c1 = "[[7]] :: byte list list"
  have w0: "?w\<lparr>w_polls := ps, w_stream := rs\<rparr> = worker_init test_uid (test_conn 0) ps rs" for ps rs
    by (simp add: worker_init_def)
  have h1: "length [pollin, pollin, pollin] = length ?c3
      \<and> (\<forall>p\<in>set [pollin, pollin, pollin]. fd_readable [p] = Some (True, [], []))
      \<and> (\<forall>c\<in>set ?c3. c \<noteq> []) \<and> length (concat ?c3) = 3"
    by (simp add: fd_readable_pollin del: fd_readable.simps)
  have h2: "length [pollin] = length ?c1
      \<and> (\<forall>p\<in>set [pollin]. fd_readable [p] = Some (True, [], []))
      \<and> (\<forall>c\<in>set ?c1. c \<noteq> []) \<and> length (concat ?c1) < 3
      \<and> fd_readable [pollin] = Some (True, [], [])
      \<and> read_fd (3 - length (concat ?c1)) [Avail []] = (0, [], [Avail []]) \<and> (True \<longrightarrow> (0::int) \<le> 0)"
    by (simp add: fd_readable_pollin del: fd_readable.simps)
  have h3: "length [pollin] = length ?c1
      \<and> (\<forall>p\<in>set [pollin]. fd_readable [p] = Some (True, [], []))
      \<and> (\<forall>c\<in>set ?c1. c \<noteq> []) \<and> length (concat ?c1) < 3
      \<and> fd_readable [pollin_shutdown] = Some (False, [], [])
      \<and> read_fd (3 - length (concat ?c1)) [Avail [8, 9]] = (2, [8, 9], []) \<and> (False \<longrightarrow> (2::int) \<le> 0)"
    by (simp add: fd_readable_pollin fd_readable_pollin_shutdown del: fd_readable.simps)
  note full = payload_reassembly [where w = ?w and C = ?C and ps' = "[]" and rs = "[]",
                THEN conjunct1, THEN mp, OF h1]
  have a: "recv_msg 3 0 [0, 0, 0]
       (worker_init test_uid (test_conn 0) [pollin, pollin, pollin] [Avail [7], Avail [8], Avail [9]])
     = Some (3, [7, 8, 9], worker_init test_uid (test_conn 0) [] [])"
    using full [THEN conjunct1] by (simp add: w0 numeral_3_eq_3)
  have b: "map_option w_trace
       (service_frame ?C 3
          (worker_init test_uid (test_conn 0) [pollin, pollin, pollin] [Avail [7], Avail [8], Avail [9]]))
     = Some [Proc_req [7, 8, 9] True, Send_msg (Some (Proc_buf [7, 8, 9]))]"
    using full [THEN conjunct2, THEN conjunct1]
    by (simp add: w0 send_reply_trace handle_msg_def echo_def worker_init_def)
  have c: "\<exists>w'. service_frame ?C 3
               (worker_init test_uid (test_conn 0) [pollin, pollin] [Avail [7], Avail []]) = Some w'
          \<and> w_fini w'
          \<and> w_trace w' = [Error ''read(%d): %m'', Send_msg (Some (Rc_msg SLURM_ERROR ''Bad offset'' 0))]"
    using payload_reassembly [where w = ?w and C = ?C and ps' = "[pollin]" and rs = "[Avail []]",
            THEN conjunct2, THEN conjunct1, THEN mp, OF h2]
    by (auto simp: w0 echo_def worker_init_def)
  have d: "\<exists>w'. service_frame ?C 3
               (worker_init test_uid (test_conn 0) [pollin, pollin_shutdown] [Avail [7], Avail [8, 9]]) = Some w'
          \<and> w_fini w'
          \<and> w_trace w' = [Send_msg (Some (Rc_msg SLURM_ERROR ''Bad offset'' 0))]"
    using payload_reassembly [where w = ?w and C = ?C and ps' = "[pollin_shutdown]"
            and rs = "[Avail [8, 9]]", THEN conjunct2, THEN conjunct1, THEN mp, OF h3]
    by (auto simp: w0 echo_def worker_init_def)
  have h4: "length [pollin] = length ?c1
      \<and> (\<forall>p\<in>set [pollin]. fd_readable [p] = Some (True, [], []))
      \<and> (\<forall>c\<in>set ?c1. c \<noteq> []) \<and> fd_readable [pollin] = Some (True, [], [])
      \<and> length (concat ?c1) < 3 \<and> 3 - length (concat ?c1) < length [8 :: byte, 9, 0, 0, 0, 2]"
    by (simp add: fd_readable_pollin del: fd_readable.simps)
  have e: "recv_msg 3 0 [0, 0, 0]
       (worker_init test_uid (test_conn 0) [pollin, pollin] [Avail [7], Avail [8, 9, 0, 0, 0, 2]])
     = Some (3, [7, 8, 9], worker_init test_uid (test_conn 0) [] [Avail [0, 0, 0, 2]])"
    using payload_reassembly [where w = ?w and C = ?C and ps' = "[]" and rs = "[]"
            and p = pollin and c = "[8, 9, 0, 0, 0, 2]",
            THEN conjunct2, THEN conjunct2, THEN mp, OF h4]
    by (simp add: w0 numeral_3_eq_3)
  from a b c d e show ?thesis by blast
qed

lemma send_reply_state:
  "w_stream (send_reply C w) = w_stream w" "w_sent (send_reply C w) = w_sent w + 1"
  "w_buffer (send_reply C w) = w_buffer w" "w_conn (send_reply C w) = w_conn w"
  by (simp_all add: send_reply_def Let_def)

lemma service_iter_frame:
  assumes "fd_readable [p1] = Some (True, [], [])" "fd_readable [p2] = Some (True, [], [])"
    and "length hdr = 4" "unat (ntohl hdr) = length payload"
    and "2 \<le> length payload" "length payload \<le> MAX_MSG_SIZE"
  shows "service_iter C (w\<lparr>w_polls := p1 # p2 # ps, w_stream := Avail hdr # Avail payload # rs\<rparr>)
           = Some (False, send_reply C (handle_msg C (length payload) (length payload) payload
                                          (w\<lparr>w_polls := ps, w_stream := rs\<rparr>)))"
proof -
  let ?w0 = "w\<lparr>w_polls := p1 # p2 # ps, w_stream := Avail hdr # Avail payload # rs\<rparr>"
  let ?w1 = "w\<lparr>w_polls := p2 # ps, w_stream := Avail payload # rs\<rparr>"
  let ?w2 = "w\<lparr>w_polls := ps, w_stream := rs\<rparr>"
  let ?L = "length payload"
  have hdr: "hdr \<noteq> []" using assms(3) by auto
  have pl: "payload \<noteq> []" using assms(5) by auto
  have rd: "read_fd 4 (w_stream ?w0) = (4, hdr, Avail payload # rs)"
    using assms(3) hdr by simp
  have "recv_msg ?L 0 (replicate ?L 0) ?w1
          = recv_msg ?L (0 + ?L) (store_at (replicate ?L 0) 0 payload) ?w2"
    using recv_msg_chunk [where offset = 0 and msg_size = ?L and msg = "replicate ?L 0"
                             and w = w and ps = ps and rs = rs, OF assms(2) pl]
    by simp
  also have "\<dots> = Some (?L, payload, ?w2)"
    by (simp add: recv_msg_done store_at_whole)
  finally have "service_frame C ?L ?w1 = Some (send_reply C (handle_msg C ?L ?L payload ?w2))"
    by (simp add: service_frame_def)
  then show ?thesis
    using service_iter_header [OF _ rd, of "[]" "p2 # ps" C] readable_Cons [OF assms(1), of "p2 # ps"]
          assms(4,5,6)
    by simp
qed

text \<open>
  Claim C7 (failure statuses).  Let a whole message have arrived and let the request
  processor answer it with a status that is neither \<open>SLURM_SUCCESS\<close> nor
  \<open>ACCOUNTING_FIRST_REG\<close>.  Then the error line "Processing last message" is logged
  right after the call.  The status marks the session to terminate if and only if it
  is \<open>ESLURM_ACCESS_DENIED\<close> or \<open>SLURM_PROTOCOL_VERSION_ERROR\<close>.  The response buffer
  the processor produced is handed to \<open>slurm_persist_send_msg\<close> after that, and only
  then is the loop condition tested: once the response has been sent, the loop ends
  with this frame for these two statuses and goes on to the next iteration for every
  other status.  (A send that fails ends the session by itself, whatever the status
  was; the theorem states the flag and the loop for that case too.)
\<close>

theorem failure_status:
  "(recv_msg L 0 (replicate L 0) w = Some (L, msg, w1) \<longrightarrow>
      service_frame C L w = Some (send_reply C (handle_msg C L L msg w1)))
   \<and> (proc_req C (w_conn w1) msg (w_first w1) (w_buffer w1) (w_uid w1) = (rc, buffer, uid, conn)
        \<and> rc \<noteq> SLURM_SUCCESS \<and> rc \<noteq> ACCOUNTING_FIRST_REG \<and> \<not> w_fini w1 \<longrightarrow>
        w_fini (handle_msg C L L msg w1)
          = (rc = ESLURM_ACCESS_DENIED \<or> rc = SLURM_PROTOCOL_VERSION_ERROR)
        \<and> w_trace (send_reply C (handle_msg C L L msg w1))
          = w_trace w1
            @ [Proc_req msg (w_first w1),
               Error ''Processing last message from connection %d(%s) uid(%d)'',
               Send_msg buffer]
            @ (if send_msg C (w_sent w1) buffer \<noteq> SLURM_SUCCESS \<and> rem_port conn \<noteq> 0
               then [Debug ''Problem sending response to connection %d(%s) uid(%d)''] else [])
        \<and> w_fini (send_reply C (handle_msg C L L msg w1))
          = (rc = ESLURM_ACCESS_DENIED \<or> rc = SLURM_PROTOCOL_VERSION_ERROR
             \<or> send_msg C (w_sent w1) buffer \<noteq> SLURM_SUCCESS)
        \<and> service_loop C (send_reply C (handle_msg C L L msg w1))
          = (if rc = ESLURM_ACCESS_DENIED \<or> rc = SLURM_PROTOCOL_VERSION_ERROR
                \<or> send_msg C (w_sent w1) buffer \<noteq> SLURM_SUCCESS
             then Some (send_reply C (handle_msg C L L msg w1))
             else (case service_iter C (send_reply C (handle_msg C L L msg w1)) of
                     None \<Rightarrow> None
                   | Some (brk, w3) \<Rightarrow> if brk then Some w3 else service_loop C w3)))
   \<and> (proc_req C (w_conn w1) msg (w_first w1) (w_buffer w1) (w_uid w1) = (rc, buffer, uid, conn)
        \<and> rc \<noteq> SLURM_SUCCESS \<and> rc \<noteq> ACCOUNTING_FIRST_REG \<and> \<not> w_fini w1
        \<and> send_msg C (w_sent w1) buffer = SLURM_SUCCESS \<longrightarrow>
        w_trace (send_reply C (handle_msg C L L msg w1))
          = w_trace w1
            @ [Proc_req msg (w_first w1),
               Error ''Processing last message from connection %d(%s) uid(%d)'',
               Send_msg buffer]
        \<and> w_fini (send_reply C (handle_msg C L L msg w1))
          = (rc = ESLURM_ACCESS_DENIED \<or> rc = SLURM_PROTOCOL_VERSION_ERROR)
        \<and> service_loop C (send_reply C (handle_msg C L L msg w1))
          = (if rc = ESLURM_ACCESS_DENIED \<or> rc = SLURM_PROTOCOL_VERSION_ERROR
             then Some (send_reply C (handle_msg C L L msg w1))
             else (case service_iter C (send_reply C (handle_msg C L L msg w1)) of
                     None \<Rightarrow> None
                   | Some (brk, w3) \<Rightarrow> if brk then Some w3 else service_loop C w3)))"
proof (intro conjI impI)
  assume "recv_msg L 0 (replicate L 0) w = Some (L, msg, w1)"
  then show "service_frame C L w = Some (send_reply C (handle_msg C L L msg w1))"
    by (simp add: service_frame_def)
next
  assume h: "proc_req C (w_conn w1) msg (w_first w1) (w_buffer w1) (w_uid w1) = (rc, buffer, uid, conn)
        \<and> rc \<noteq> SLURM_SUCCESS \<and> rc \<noteq> ACCOUNTING_FIRST_REG \<and> \<not> w_fini w1"
  then have pr: "proc_req C (w_conn w1) msg (w_first w1) (w_buffer w1) (w_uid w1) = (rc, buffer, uid, conn)"
    by simp
  note hm = handle_msg_whole [OF pr, of L]
  let ?w2 = "send_reply C (handle_msg C L L msg w1)"
  show f1: "w_fini (handle_msg C L L msg w1)
          = (rc = ESLURM_ACCESS_DENIED \<or> rc = SLURM_PROTOCOL_VERSION_ERROR)"
    using h by (simp add: hm)
  show "w_trace ?w2
          = w_trace w1
            @ [Proc_req msg (w_first w1),
               Error ''Processing last message from connection %d(%s) uid(%d)'',
               Send_msg buffer]
            @ (if send_msg C (w_sent w1) buffer \<noteq> SLURM_SUCCESS \<and> rem_port conn \<noteq> 0
               then [Debug ''Problem sending response to connection %d(%s) uid(%d)''] else [])"
    using h by (simp add: hm send_reply_trace)
  show f2: "w_fini ?w2
          = (rc = ESLURM_ACCESS_DENIED \<or> rc = SLURM_PROTOCOL_VERSION_ERROR
             \<or> send_msg C (w_sent w1) buffer \<noteq> SLURM_SUCCESS)"
    using h by (simp add: hm send_reply_fini_eq)
  show "service_loop C ?w2
          = (if rc = ESLURM_ACCESS_DENIED \<or> rc = SLURM_PROTOCOL_VERSION_ERROR
                \<or> send_msg C (w_sent w1) buffer \<noteq> SLURM_SUCCESS
             then Some ?w2
             else (case service_iter C ?w2 of
                     None \<Rightarrow> None
                   | Some (brk, w3) \<Rightarrow> if brk then Some w3 else service_loop C w3))"
    using f2 by (subst service_loop.simps) simp
next
  assume h: "proc_req C (w_conn w1) msg (w_first w1) (w_buffer w1) (w_uid w1) = (rc, buffer, uid, conn)
        \<and> rc \<noteq> SLURM_SUCCESS \<and> rc \<noteq> ACCOUNTING_FIRST_REG \<and> \<not> w_fini w1
        \<and> send_msg C (w_sent w1) buffer = SLURM_SUCCESS"
  then have pr: "proc_req C (w_conn w1) msg (w_first w1) (w_buffer w1) (w_uid w1) = (rc, buffer, uid, conn)"
    by simp
  note hm = handle_msg_whole [OF pr, of L]
  let ?w2 = "send_reply C (handle_msg C L L msg w1)"
  show "w_trace ?w2
          = w_trace w1
            @ [Proc_req msg (w_first w1),
               Error ''Processing last message from connection %d(%s) uid(%d)'',
               Send_msg buffer]"
    using h by (simp add: hm send_reply_trace)
  show f3: "w_fini ?w2 = (rc = ESLURM_ACCESS_DENIED \<or> rc = SLURM_PROTOCOL_VERSION_ERROR)"
    using h by (simp add: hm send_reply_fini_eq)
  show "service_loop C ?w2
          = (if rc = ESLURM_ACCESS_DENIED \<or> rc = SLURM_PROTOCOL_VERSION_ERROR
             then Some ?w2
             else (case service_iter C ?w2 of
                     None \<Rightarrow> None
                   | Some (brk, w3) \<Rightarrow> if brk then Some w3 else service_loop C w3))"
    using f3 by (subst service_loop.simps) simp
qed


theorem failure_status_witness:
  "service_frame (echo SLURM_ERROR SLURM_SUCCESS) 2 (worker_init test_uid (test_conn 0) [pollin] [Avail [7, 8]])
     = Some (send_reply (echo SLURM_ERROR SLURM_SUCCESS)
               (handle_msg (echo SLURM_ERROR SLURM_SUCCESS) 2 2 [7, 8] (worker_init test_uid (test_conn 0) [] [])))
   \<and> w_trace (send_reply (echo ESLURM_ACCESS_DENIED SLURM_SUCCESS)
               (handle_msg (echo ESLURM_ACCESS_DENIED SLURM_SUCCESS) 2 2 [7, 8]
                  (worker_init test_uid (test_conn 0) [pollin] [Avail [0, 0, 0, 2, 1, 2]])))
     = [Proc_req [7, 8] True, Error ''Processing last message from connection %d(%s) uid(%d)'',
        Send_msg (Some (Proc_buf [7, 8]))]
   \<and> service_loop (echo ESLURM_ACCESS_DENIED SLURM_SUCCESS)
         (send_reply (echo ESLURM_ACCESS_DENIED SLURM_SUCCESS)
               (handle_msg (echo ESLURM_ACCESS_DENIED SLURM_SUCCESS) 2 2 [7, 8]
                  (worker_init test_uid (test_conn 0) [pollin] [Avail [0, 0, 0, 2, 1, 2]])))
     = Some (send_reply (echo ESLURM_ACCESS_DENIED SLURM_SUCCESS)
               (handle_msg (echo ESLURM_ACCESS_DENIED SLURM_SUCCESS) 2 2 [7, 8]
                  (worker_init test_uid (test_conn 0) [pollin] [Avail [0, 0, 0, 2, 1, 2]])))
   \<and> \<not> w_fini (send_reply (echo SLURM_ERROR SLURM_SUCCESS)
               (handle_msg (echo SLURM_ERROR SLURM_SUCCESS) 2 2 [7, 8]
                  (worker_init test_uid (test_conn 0) [pollin] [Avail [0, 0, 0, 2, 1, 2]])))
   \<and> w_fini (send_reply (echo SLURM_ERROR SLURM_ERROR)
               (handle_msg (echo SLURM_ERROR SLURM_ERROR) 2 2 [7, 8]
                  (worker_init test_uid (test_conn 0) [pollin] [Avail [0, 0, 0, 2, 1, 2]])))
   \<and> map_option w_trace
        (service_loop (echo SLURM_ERROR SLURM_SUCCESS)
           (send_reply (echo SLURM_ERROR SLURM_SUCCESS)
              (handle_msg (echo SLURM_ERROR SLURM_SUCCESS) 2 2 [7, 8]
                 (worker_init test_uid (test_conn 0) [pollin, pollin, pollin]
                    [Avail [0, 0, 0, 2], Avail [1, 2]]))))
     = Some [Proc_req [7, 8] True,
             Error ''Processing last message from connection %d(%s) uid(%d)'',
             Send_msg (Some (Proc_buf [7, 8])),
             Proc_req [1, 2] False,
             Error ''Processing last message from connection %d(%s) uid(%d)'',
             Send_msg (Some (Proc_buf [1, 2]))]"
proof -
  let ?D = "echo ESLURM_ACCESS_DENIED SLURM_SUCCESS"
  let ?E = "echo SLURM_ERROR SLURM_SUCCESS"
  let ?F = "echo SLURM_ERROR SLURM_ERROR"
  let ?w = "worker_init test_uid (test_conn 0) [pollin] [Avail [7, 8]]"
  let ?w1 = "worker_init test_uid (test_conn 0) [pollin] [Avail [0, 0, 0, 2, 1, 2]]"
  let ?v1 = "worker_init test_uid (test_conn 0) [pollin, pollin, pollin]
               [Avail [0, 0, 0, 2], Avail [1, 2]]"
  have rc: "recv_msg 2 0 (replicate 2 0) ?w = Some (2, [7, 8], worker_init test_uid (test_conn 0) [] [])"
    using recv_msg_chunk [where p = pollin and c = "[7, 8]" and offset = 0 and msg_size = 2
                          and msg = "[0, 0]" and w = ?w and ps = "[]" and rs = "[]"]
    by (simp add: fd_readable_pollin recv_msg_done store_at_def worker_init_def numeral_2_eq_2
             del: fd_readable.simps)
  have hD: "proc_req ?D (w_conn ?w1) [7, 8] (w_first ?w1) (w_buffer ?w1) (w_uid ?w1)
              = (ESLURM_ACCESS_DENIED, Some (Proc_buf [7, 8]), test_uid, test_conn 0)
        \<and> ESLURM_ACCESS_DENIED \<noteq> SLURM_SUCCESS \<and> ESLURM_ACCESS_DENIED \<noteq> ACCOUNTING_FIRST_REG
        \<and> \<not> w_fini ?w1"
    by (simp add: echo_def worker_init_def)
  have hF: "proc_req ?F (w_conn ?w1) [7, 8] (w_first ?w1) (w_buffer ?w1) (w_uid ?w1)
              = (SLURM_ERROR, Some (Proc_buf [7, 8]), test_uid, test_conn 0)
        \<and> SLURM_ERROR \<noteq> SLURM_SUCCESS \<and> SLURM_ERROR \<noteq> ACCOUNTING_FIRST_REG
        \<and> \<not> w_fini ?w1"
    by (simp add: echo_def worker_init_def)
  have hE: "proc_req ?E (w_conn ?w1) [7, 8] (w_first ?w1) (w_buffer ?w1) (w_uid ?w1)
              = (SLURM_ERROR, Some (Proc_buf [7, 8]), test_uid, test_conn 0)
        \<and> SLURM_ERROR \<noteq> SLURM_SUCCESS \<and> SLURM_ERROR \<noteq> ACCOUNTING_FIRST_REG
        \<and> \<not> w_fini ?w1
        \<and> send_msg ?E (w_sent ?w1) (Some (Proc_buf [7, 8])) = SLURM_SUCCESS"
    by (simp add: echo_def worker_init_def)
  have hV: "proc_req ?E (w_conn ?v1) [7, 8] (w_first ?v1) (w_buffer ?v1) (w_uid ?v1)
              = (SLURM_ERROR, Some (Proc_buf [7, 8]), test_uid, test_conn 0)
        \<and> SLURM_ERROR \<noteq> SLURM_SUCCESS \<and> SLURM_ERROR \<noteq> ACCOUNTING_FIRST_REG
        \<and> \<not> w_fini ?v1
        \<and> send_msg ?E (w_sent ?v1) (Some (Proc_buf [7, 8])) = SLURM_SUCCESS"
    by (simp add: echo_def worker_init_def)
  have a: "service_frame ?E 2 ?w
     = Some (send_reply ?E (handle_msg ?E 2 2 [7, 8] (worker_init test_uid (test_conn 0) [] [])))"
    using failure_status [where C = ?E and L = 2 and w = ?w, THEN conjunct1, THEN mp, OF rc] .
  note D = failure_status [where C = ?D and L = 2 and conn = "test_conn 0",
             THEN conjunct2, THEN conjunct1, THEN mp, OF hD]
  note F = failure_status [where C = ?F and L = 2 and conn = "test_conn 0",
             THEN conjunct2, THEN conjunct1, THEN mp, OF hF]
  note E = failure_status [where C = ?E and L = 2 and conn = "test_conn 0",
             THEN conjunct2, THEN conjunct2, THEN mp, OF hE]
  note V = failure_status [where C = ?E and L = 2 and conn = "test_conn 0",
             THEN conjunct2, THEN conjunct2, THEN mp, OF hV]
  have b: "w_trace (send_reply ?D (handle_msg ?D 2 2 [7, 8] ?w1))
     = [Proc_req [7, 8] True, Error ''Processing last message from connection %d(%s) uid(%d)'',
        Send_msg (Some (Proc_buf [7, 8]))]"
    using D [THEN conjunct2, THEN conjunct1] by (simp add: echo_def worker_init_def)
  have c: "service_loop ?D (send_reply ?D (handle_msg ?D 2 2 [7, 8] ?w1))
     = Some (send_reply ?D (handle_msg ?D 2 2 [7, 8] ?w1))"
    using D [THEN conjunct2, THEN conjunct2, THEN conjunct2] by simp
  have d: "\<not> w_fini (send_reply ?E (handle_msg ?E 2 2 [7, 8] ?w1))"
    using E [THEN conjunct2, THEN conjunct1] by simp
  have e: "w_fini (send_reply ?F (handle_msg ?F 2 2 [7, 8] ?w1))"
    using F [THEN conjunct2, THEN conjunct2, THEN conjunct1] by (simp add: echo_def)
  \<comment> \<open>the run over two frames: the general error does not end the session\<close>
  let ?b1 = "(worker_init test_uid (test_conn 0) [] [])
               \<lparr>w_first := False, w_buffer := Some (Proc_buf [7, 8]), w_sent := 1\<rparr>"
  let ?t1 = "[Proc_req [7, 8] True,
              Error ''Processing last message from connection %d(%s) uid(%d)'',
              Send_msg (Some (Proc_buf [7, 8]))]"
  let ?v2 = "send_reply ?E (handle_msg ?E 2 2 [7, 8] ?v1)"
  let ?v3 = "send_reply ?E (handle_msg ?E (length [1 :: byte, 2]) (length [1 :: byte, 2]) [1, 2]
               ((trace ?t1 ?b1)\<lparr>w_polls := [pollin], w_stream := []\<rparr>))"
  have pin: "fd_readable [pollin] = Some (True, [], [])" by (rule fd_readable_pollin)
  have v2: "?v2 = (trace ?t1 ?b1)\<lparr>w_polls := pollin # pollin # [pollin],
                                   w_stream := Avail [0, 0, 0, 2] # Avail [1, 2] # []\<rparr>"
    by (simp add: handle_msg_def send_reply_def echo_def worker_init_def trace_def)
  have it2: "service_iter ?E ?v2 = Some (False, ?v3)"
    unfolding v2
    by (rule service_iter_frame [OF pin pin]) (simp_all add: MAX_MSG_SIZE_def)
  have nf3: "\<not> w_fini ?v3"
    by (simp add: send_reply_fini_eq handle_msg_def echo_def worker_init_def)
  have it3: "service_iter ?E ?v3 = Some (True, ?v3\<lparr>w_polls := []\<rparr>)"
    by (simp add: service_iter_def send_reply_def handle_msg_def echo_def worker_init_def
                  fd_readable_pollin trace_def
             del: fd_readable.simps)
  have l3: "service_loop ?E ?v3 = Some (?v3\<lparr>w_polls := []\<rparr>)"
    using nf3 it3 by (rule service_loop_break)
  have "service_loop ?E ?v2 = Some (?v3\<lparr>w_polls := []\<rparr>)"
    using V [THEN conjunct2, THEN conjunct2] it2 l3 by simp
  moreover have "w_trace (?v3\<lparr>w_polls := []\<rparr>)
     = [Proc_req [7, 8] True,
        Error ''Processing last message from connection %d(%s) uid(%d)'',
        Send_msg (Some (Proc_buf [7, 8])),
        Proc_req [1, 2] False,
        Error ''Processing last message from connection %d(%s) uid(%d)'',
        Send_msg (Some (Proc_buf [1, 2]))]"
    by (simp add: send_reply_def handle_msg_def echo_def worker_init_def test_conn_def trace_def)
  ultimately have f: "map_option w_trace (service_loop ?E ?v2)
     = Some [Proc_req [7, 8] True,
             Error ''Processing last message from connection %d(%s) uid(%d)'',
             Send_msg (Some (Proc_buf [7, 8])),
             Proc_req [1, 2] False,
             Error ''Processing last message from connection %d(%s) uid(%d)'',
             Send_msg (Some (Proc_buf [1, 2]))]"
    by simp
  from a b c d e f show ?thesis by blast
qed

subsection \<open>Teardown\<close>

lemma fd_readable_no_teardown:
  "fd_readable ps = Some (ok, evs, ps') \<Longrightarrow> filter is_teardown evs = []"
  by (induction ps) (auto split: if_splits)

lemma recv_msg_no_teardown:
  "recv_msg msg_size offset msg w = Some (offset', msg', w')
     \<Longrightarrow> filter is_teardown (w_trace w') = filter is_teardown (w_trace w)"
proof (induction msg_size offset msg w rule: recv_msg.induct)
  case (1 msg_size offset msg w)
  show ?case
  proof (cases "msg_size > offset")
    case False
    with "1.prems" show ?thesis by (simp add: recv_msg.simps [of msg_size offset msg w])
  next
    case True
    from True "1.prems" obtain ok evs ps where rd: "fd_readable (w_polls w) = Some (ok, evs, ps)"
      by (auto simp: recv_msg.simps [of msg_size offset msg w] split: option.splits)
    note nt = fd_readable_no_teardown [OF rd]
    obtain msg_read data rs where
      rf: "read_fd (msg_size - offset) (w_stream (trace evs (w\<lparr>w_polls := ps\<rparr>))) = (msg_read, data, rs)"
      by (cases "read_fd (msg_size - offset) (w_stream (trace evs (w\<lparr>w_polls := ps\<rparr>)))")
    show ?thesis
    proof (cases "ok \<and> \<not> msg_read \<le> 0")
      case False
      with True rd rf "1.prems" nt show ?thesis
        by (auto simp: recv_msg.simps [of msg_size offset msg w] Let_def split: if_splits)
    next
      case go: True
      let ?w2 = "(trace evs (w\<lparr>w_polls := ps\<rparr>))\<lparr>w_stream := rs\<rparr>"
      have "recv_msg msg_size (offset + nat msg_read) (store_at msg offset data) ?w2
              = Some (offset', msg', w')"
        using True rd rf go "1.prems"
        by (simp add: recv_msg.simps [of msg_size offset msg w] Let_def)
      then have "filter is_teardown (w_trace w') = filter is_teardown (w_trace ?w2)"
        using "1.IH" [OF True rd refl refl refl _ rf [symmetric] refl refl] go
        by simp
      with nt show ?thesis by simp
    qed
  qed
qed

lemma handle_msg_no_teardown:
  "filter is_teardown (w_trace (handle_msg C msg_size offset msg w)) = filter is_teardown (w_trace w)"
  by (auto simp: handle_msg_def Let_def split: prod.splits)

lemma send_reply_no_teardown:
  "filter is_teardown (w_trace (send_reply C w)) = filter is_teardown (w_trace w)"
  by (simp add: send_reply_trace)

lemma service_iter_no_teardown:
  assumes "service_iter C w = Some (brk, w')"
  shows "filter is_teardown (w_trace w') = filter is_teardown (w_trace w)"
proof -
  obtain ok evs ps where rd: "fd_readable (w_polls w) = Some (ok, evs, ps)"
    using assms by (auto simp: service_iter_def split: option.splits)
  note nt = fd_readable_no_teardown [OF rd]
  show ?thesis
    using assms rd nt
    by (auto simp: service_iter_def service_frame_def Let_def
                   handle_msg_no_teardown send_reply_no_teardown
             split: option.splits prod.splits if_splits dest!: recv_msg_no_teardown)
qed

lemma service_loop_no_teardown:
  "service_loop C w = Some w' \<Longrightarrow> filter is_teardown (w_trace w') = filter is_teardown (w_trace w)"
proof (induction C w rule: service_loop.induct)
  case (1 C w)
  show ?case
  proof (cases "w_fini w")
    case True
    with "1.prems" show ?thesis by (simp add: service_loop.simps [of C w])
  next
    case False
    then obtain brk w1 where it: "service_iter C w = Some (brk, w1)"
      using "1.prems" by (auto simp: service_loop.simps [of C w] split: option.splits)
    note st = service_iter_no_teardown [OF it]
    show ?thesis
    proof (cases brk)
      case True
      with False it "1.prems" st show ?thesis by (simp add: service_loop.simps [of C w])
    next
      case nb: False
      then have "service_loop C w1 = Some w'"
        using False it "1.prems" by (simp add: service_loop.simps [of C w])
      then have "filter is_teardown (w_trace w') = filter is_teardown (w_trace w1)"
        using "1.IH" [OF False it refl] nb by simp
      with st show ?thesis by simp
    qed
  qed
qed

lemma registry_scan_eq:
  "registry_scan c reg = (if c \<in> set reg then [List_delete_item c] else [], remove1 c reg)"
  by (induction reg) auto


lemma teardown_release: "snd (snd (teardown self conn reg st)) = free_server_thread self st"
  by (simp add: teardown_def split: prod.splits)

text \<open>
  Claim C2 (teardown), as amended.  Every way out of the worker loop leads into the
  teardown, which runs once: the loop itself produces none of the teardown's actions.
  For a persistent connection (remote port not zero) while no shutdown is in
  progress, the teardown closes the cluster's accounting session, then, holding the
  registry mutex, deletes the first registry entry that is this connection and no
  other entry.  For a persistent connection, shutdown or not, it then commits with
  flag 1; for a connection that is not persistent it does not commit.  In every case
  it then closes the storage connection, frees the connection's members, its
  \<open>tres_str\<close> and the connection itself, and calls \<open>_free_server_thread\<close> with its
  own thread identity.
\<close>

theorem teardown_effect:
  "(service_loop C (trace [Debug2 ''Opened connection %d from %s''] w) = Some w1 \<longrightarrow>
      service_connection C self w reg st
        = Some (trace (fst (teardown self (w_conn w1) reg st)) w1,
                fst (snd (teardown self (w_conn w1) reg st)),
                free_server_thread self st)
      \<and> filter is_teardown (w_trace w1) = filter is_teardown (w_trace w))
   \<and> snd (snd (teardown self conn reg st)) = free_server_thread self st
   \<and> (rem_port conn \<noteq> 0 \<and> shutdown_time st = 0 \<longrightarrow>
        fst (teardown self conn reg st)
          = [Debug ''cluster %s has disconnected'', Fini_ctld (db_conn conn), Registry_lock]
            @ (if conn_id conn \<in> set reg then [List_delete_item (conn_id conn)] else [])
            @ [Registry_unlock, Commit 1, Close_connection, Members_destroy,
               Debug2 ''Closed connection %d uid(%d)'', Xfree_tres_str, Xfree_conn]
        \<and> fst (snd (teardown self conn reg st)) = remove1 (conn_id conn) reg)
   \<and> (rem_port conn \<noteq> 0 \<and> shutdown_time st \<noteq> 0 \<longrightarrow>
        fst (teardown self conn reg st)
          = [Commit 1, Close_connection, Members_destroy,
             Debug2 ''Closed connection %d uid(%d)'', Xfree_tres_str, Xfree_conn]
        \<and> fst (snd (teardown self conn reg st)) = reg)
   \<and> (rem_port conn = 0 \<longrightarrow>
        fst (teardown self conn reg st)
          = [Close_connection, Members_destroy,
             Debug2 ''Closed connection %d uid(%d)'', Xfree_tres_str, Xfree_conn]
        \<and> fst (snd (teardown self conn reg st)) = reg)"
proof (intro conjI impI)
  assume h: "service_loop C (trace [Debug2 ''Opened connection %d from %s''] w) = Some w1"
  then show "service_connection C self w reg st
        = Some (trace (fst (teardown self (w_conn w1) reg st)) w1,
                fst (snd (teardown self (w_conn w1) reg st)),
                free_server_thread self st)"
    using teardown_release [of self "w_conn w1" reg st]
    by (cases "teardown self (w_conn w1) reg st") (simp add: service_connection_def)
  from service_loop_no_teardown [OF h]
  show "filter is_teardown (w_trace w1) = filter is_teardown (w_trace w)" by simp
next
  show "snd (snd (teardown self conn reg st)) = free_server_thread self st"
    by (rule teardown_release)
next
  assume h: "rem_port conn \<noteq> 0 \<and> shutdown_time st = 0"
  then show "fst (teardown self conn reg st)
          = [Debug ''cluster %s has disconnected'', Fini_ctld (db_conn conn), Registry_lock]
            @ (if conn_id conn \<in> set reg then [List_delete_item (conn_id conn)] else [])
            @ [Registry_unlock, Commit 1, Close_connection, Members_destroy,
               Debug2 ''Closed connection %d uid(%d)'', Xfree_tres_str, Xfree_conn]"
    by (simp add: teardown_def registry_scan_eq)
  from h show "fst (snd (teardown self conn reg st)) = remove1 (conn_id conn) reg"
    by (simp add: teardown_def registry_scan_eq)
next
  assume h: "rem_port conn \<noteq> 0 \<and> shutdown_time st \<noteq> 0"
  then show "fst (teardown self conn reg st)
          = [Commit 1, Close_connection, Members_destroy,
             Debug2 ''Closed connection %d uid(%d)'', Xfree_tres_str, Xfree_conn]"
    by (simp add: teardown_def)
  from h show "fst (snd (teardown self conn reg st)) = reg"
    by (simp add: teardown_def)
next
  assume h: "rem_port conn = 0"
  then show "fst (teardown self conn reg st)
          = [Close_connection, Members_destroy,
             Debug2 ''Closed connection %d uid(%d)'', Xfree_tres_str, Xfree_conn]"
    by (simp add: teardown_def)
  from h show "fst (snd (teardown self conn reg st)) = reg"
    by (simp add: teardown_def)
qed

theorem teardown_effect_witness:
  "service_connection (echo SLURM_SUCCESS SLURM_SUCCESS) 9 (worker_init test_uid (test_conn 6817) [pollin] [])
       [7, 42, 8, 42] (init_state\<lparr>slave_thread_id := (\<lambda>_. 0)(0 := 9), thread_count := 1\<rparr>)
     = Some (trace [Debug2 ''Opened connection %d from %s'',
                    Debug ''cluster %s has disconnected'', Fini_ctld 3, Registry_lock,
                    List_delete_item 42, Registry_unlock, Commit 1, Close_connection,
                    Members_destroy, Debug2 ''Closed connection %d uid(%d)'', Xfree_tres_str,
                    Xfree_conn]
               (worker_init test_uid (test_conn 6817) [] []),
             [7, 8, 42],
             free_server_thread 9 (init_state\<lparr>slave_thread_id := (\<lambda>_. 0)(0 := 9), thread_count := 1\<rparr>))
   \<and> fst (teardown 9 (test_conn 6817) [7, 42, 8, 42] (init_state\<lparr>shutdown_time := 1700000000\<rparr>))
     = [Commit 1, Close_connection, Members_destroy,
        Debug2 ''Closed connection %d uid(%d)'', Xfree_tres_str, Xfree_conn]
   \<and> fst (snd (teardown 9 (test_conn 6817) [7, 42, 8, 42] (init_state\<lparr>shutdown_time := 1700000000\<rparr>)))
     = [7, 42, 8, 42]
   \<and> fst (teardown 9 (test_conn 0) [7, 42] init_state)
     = [Close_connection, Members_destroy,
        Debug2 ''Closed connection %d uid(%d)'', Xfree_tres_str, Xfree_conn]"
proof -
  let ?C = "echo SLURM_SUCCESS SLURM_SUCCESS"
  let ?w = "worker_init test_uid (test_conn 6817) [pollin] []"
  let ?w1 = "trace [Debug2 ''Opened connection %d from %s''] (worker_init test_uid (test_conn 6817) [] [])"
  let ?st = "init_state\<lparr>slave_thread_id := (\<lambda>_. 0)(0 := 9), thread_count := 1\<rparr>"
  let ?sd = "init_state\<lparr>shutdown_time := 1700000000\<rparr>"
  have "service_iter ?C (trace [Debug2 ''Opened connection %d from %s''] ?w) = Some (True, ?w1)"
    by (simp add: service_iter_def worker_init_def fd_readable_pollin del: fd_readable.simps)
  then have loop: "service_loop ?C (trace [Debug2 ''Opened connection %d from %s''] ?w) = Some ?w1"
    by (intro service_loop_break) (simp_all add: worker_init_def)
  have p1: "rem_port (test_conn 6817) \<noteq> 0 \<and> shutdown_time ?st = 0"
    by (simp add: test_conn_def init_state_def)
  have p2: "rem_port (test_conn 6817) \<noteq> 0 \<and> shutdown_time ?sd \<noteq> 0"
    by (simp add: test_conn_def init_state_def)
  have p3: "rem_port (test_conn 0) = 0"
    by (simp add: test_conn_def)
  have conn: "w_conn ?w1 = test_conn 6817" by (simp add: worker_init_def)
  note T1 = teardown_effect [where C = ?C and w = ?w and self = 9 and reg = "[7, 42, 8, 42]"
              and st = ?st and conn = "test_conn 6817"]
  have td: "fst (teardown 9 (test_conn 6817) [7, 42, 8, 42] ?st)
           = [Debug ''cluster %s has disconnected'', Fini_ctld 3, Registry_lock,
              List_delete_item 42, Registry_unlock, Commit 1, Close_connection,
              Members_destroy, Debug2 ''Closed connection %d uid(%d)'', Xfree_tres_str, Xfree_conn]
         \<and> fst (snd (teardown 9 (test_conn 6817) [7, 42, 8, 42] ?st)) = [7, 8, 42]"
    using T1 [THEN conjunct2, THEN conjunct2, THEN conjunct1, THEN mp, OF p1]
    by (simp add: test_conn_def)
  have a: "service_connection ?C 9 ?w [7, 42, 8, 42] ?st
     = Some (trace [Debug2 ''Opened connection %d from %s'',
                    Debug ''cluster %s has disconnected'', Fini_ctld 3, Registry_lock,
                    List_delete_item 42, Registry_unlock, Commit 1, Close_connection,
                    Members_destroy, Debug2 ''Closed connection %d uid(%d)'', Xfree_tres_str,
                    Xfree_conn]
               (worker_init test_uid (test_conn 6817) [] []),
             [7, 8, 42], free_server_thread 9 ?st)"
    using T1 [THEN conjunct1, THEN mp, OF loop, THEN conjunct1] td conn by simp
  note T2 = teardown_effect [where self = 9 and reg = "[7, 42, 8, 42]"
              and st = ?sd and conn = "test_conn 6817"]
  have b: "fst (teardown 9 (test_conn 6817) [7, 42, 8, 42] ?sd)
     = [Commit 1, Close_connection, Members_destroy,
        Debug2 ''Closed connection %d uid(%d)'', Xfree_tres_str, Xfree_conn]
     \<and> fst (snd (teardown 9 (test_conn 6817) [7, 42, 8, 42] ?sd)) = [7, 42, 8, 42]"
    using T2 [THEN conjunct2, THEN conjunct2, THEN conjunct2, THEN conjunct1, THEN mp, OF p2] .
  have c: "fst (teardown 9 (test_conn 0) [7, 42] init_state)
     = [Close_connection, Members_destroy,
        Debug2 ''Closed connection %d uid(%d)'', Xfree_tres_str, Xfree_conn]"
    using teardown_effect [where self = 9 and reg = "[7, 42]" and st = init_state
            and conn = "test_conn 0",
            THEN conjunct2, THEN conjunct2, THEN conjunct2, THEN conjunct2, THEN mp, OF p3]
    by simp
  from a b c show ?thesis by blast
qed

text \<open>The claim as it was stated fails for a connection that is not persistent: a
  one-shot client (remote port 0) connects and closes; the worker's whole trace holds
  no commit.\<close>

theorem teardown_no_commit_counterexample:
  "map_option (w_trace \<circ> fst)
     (service_connection (echo SLURM_SUCCESS SLURM_SUCCESS) 9 (worker_init test_uid (test_conn 0) [pollin] [])
        [] (init_state\<lparr>slave_thread_id := (\<lambda>_. 0)(0 := 9), thread_count := 1\<rparr>))
   = Some [Debug2 ''Opened connection %d from %s'', Close_connection, Members_destroy,
           Debug2 ''Closed connection %d uid(%d)'', Xfree_tres_str, Xfree_conn]"
proof -
  let ?C = "echo SLURM_SUCCESS SLURM_SUCCESS"
  let ?w = "worker_init test_uid (test_conn 0) [pollin] []"
  let ?w1 = "trace [Debug2 ''Opened connection %d from %s''] (worker_init test_uid (test_conn 0) [] [])"
  have "service_iter ?C (trace [Debug2 ''Opened connection %d from %s''] ?w) = Some (True, ?w1)"
    by (simp add: service_iter_def worker_init_def fd_readable_pollin del: fd_readable.simps)
  then have "service_loop ?C (trace [Debug2 ''Opened connection %d from %s''] ?w) = Some ?w1"
    by (intro service_loop_break) (simp_all add: worker_init_def)
  then show ?thesis
    by (simp add: service_connection_def teardown_def test_conn_def worker_init_def
             split: prod.splits)
qed

end
